theory Spec2Isabelle
  imports Complex_Main "HOL-Library.Stream"
begin

section \<open>The dashboard script (website/script.js) as HOL functions\<close>

text \<open>
  The script is JavaScript. The chart data (the residuals, the error histogram, the CSV
  export) are modelled with idealised numbers: a number is a real, and \<open>NaN\<close> is a
  value of its own. The prediction form is modelled with IEEE-754 doubles: every
  operation rounds, and overflow gives \<open>Infinity\<close>. Reading an array past its end gives
  \<open>undefined\<close> in JavaScript, and \<open>undefined\<close> in arithmetic is \<open>NaN\<close>; a method
  call on \<open>undefined\<close> throws a TypeError.
\<close>

subsection \<open>Numbers\<close>

datatype jsnum = NaN | Num real


text \<open>\<open>a - b\<close>, \<open>Math.abs(a)\<close>, \<open>a >= b\<close> and \<open>a < b\<close>: every comparison
  with \<open>NaN\<close> is false.\<close>

fun js_sub :: "jsnum \<Rightarrow> jsnum \<Rightarrow> jsnum" where
  "js_sub (Num a) (Num b) = Num (a - b)"
| "js_sub _ _ = NaN"

fun Math_abs :: "jsnum \<Rightarrow> jsnum" where
  "Math_abs (Num a) = Num \<bar>a\<bar>"
| "Math_abs NaN = NaN"

fun js_ge :: "jsnum \<Rightarrow> real \<Rightarrow> bool" where
  "js_ge (Num a) b = (b \<le> a)"
| "js_ge NaN b = False"

fun js_lt :: "jsnum \<Rightarrow> real \<Rightarrow> bool" where
  "js_lt (Num a) b = (a < b)"
| "js_lt NaN b = False"

text \<open>\<open>xs[i]\<close> used as a number: \<open>undefined\<close> past the end, which arithmetic turns
  into \<open>NaN\<close>.\<close>

definition js_index :: "jsnum list \<Rightarrow> nat \<Rightarrow> jsnum" where
  "js_index xs i = (if i < length xs then xs ! i else NaN)"

text \<open>Decimal digits of a natural number, as template literals and \<open>toFixed\<close> print
  them.\<close>

definition digit_char :: "nat \<Rightarrow> char" where
  "digit_char d = ''0123456789'' ! d"

fun digits :: "nat \<Rightarrow> string" where
  "digits n = (if n < 10 then [digit_char n] else digits (n div 10) @ [digit_char (n mod 10)])"

declare digits.simps [simp del]

subsection \<open>Double-precision numbers\<close>

text \<open>
  The prediction form computes with JavaScript numbers as they are: IEEE-754 doubles. A
  double is \<open>NaN\<close>, \<open>Infinity\<close>, \<open>-Infinity\<close> or a finite value, one of the reals
  \<open>m * 2^e\<close> with \<open>|m| < 2^53\<close> and \<open>-1074 \<le> e \<le> 971\<close>. Every arithmetic operation
  returns the exact result rounded to the nearest double, a tie going to the even
  significand, and \<open>Infinity\<close> from \<open>2^1024\<close> on. The two zeros are one value here:
  the script never divides, and \<open>Math.max(0, x)\<close> and \<open>x || d\<close> turn a negative zero
  into a positive one before it is stored.

  \<open>round_even\<close> is rounding to the nearest integer with ties to even; \<open>ilog2 x\<close> is
  \<open>\<lfloor>log\<^sub>2 x\<rfloor>\<close> for a positive \<open>x\<close>, computed by halving and doubling; \<open>binade x\<close> is the
  exponent of the binade of \<open>x\<close>, the subnormal numbers sharing the exponent \<open>-1022\<close>;
  \<open>ulp x\<close> is the distance of two neighbouring doubles there, and \<open>fl_real x\<close> is the
  multiple of \<open>ulp x\<close> nearest to \<open>x\<close>.
\<close>

definition round_even :: "real \<Rightarrow> int" where
  "round_even q =
     (let f = \<lfloor>q\<rfloor>; d = q - of_int f
      in if d < 1 / 2 then f else if 1 / 2 < d then f + 1 else if even f then f else f + 1)"

function ilog2 :: "real \<Rightarrow> int" where
  "ilog2 x =
     (if x \<le> 0 then 0
      else if 2 \<le> x then ilog2 (x / 2) + 1
      else if x < 1 then ilog2 (x * 2) - 1
      else 0)"
  by pat_completeness auto
termination
proof (relation "measure (\<lambda>x. nat \<bar>\<lfloor>log 2 x\<rfloor>\<bar>)")
  show "wf (measure (\<lambda>x. nat \<bar>\<lfloor>log 2 x\<rfloor>\<bar>))" by simp
next
  fix x :: real
  assume "\<not> x \<le> 0" and x: "2 \<le> x"
  then have "log 2 (x / 2) = log 2 x - 1" by (simp add: log_divide)
  moreover have "1 \<le> log 2 x" using x by (simp add: le_log_iff)
  then have "1 \<le> \<lfloor>log 2 x\<rfloor>" by (simp add: le_floor_iff)
  ultimately show "(x / 2, x) \<in> measure (\<lambda>x. nat \<bar>\<lfloor>log 2 x\<rfloor>\<bar>)" by simp
next
  fix x :: real
  assume pos: "\<not> x \<le> 0" and "\<not> 2 \<le> x" and x: "x < 1"
  define L where "L = \<lfloor>log 2 x\<rfloor>"
  have "log 2 (x * 2) = log 2 x + 1" using pos by (simp add: log_mult)
  then have e: "\<lfloor>log 2 (x * 2)\<rfloor> = L + 1" by (simp add: L_def)
  have "log 2 x < 0" using x pos by simp
  then have "L < 0" by (simp add: L_def floor_less_iff)
  then have "nat \<bar>L + 1\<bar> < nat \<bar>L\<bar>" by linarith
  then show "(x * 2, x) \<in> measure (\<lambda>x. nat \<bar>\<lfloor>log 2 x\<rfloor>\<bar>)"
    unfolding in_measure e L_def [symmetric] .
qed

declare ilog2.simps [simp del]

definition binade :: "real \<Rightarrow> int" where
  "binade x = max (ilog2 \<bar>x\<bar>) (- 1022)"

definition ulp :: "real \<Rightarrow> real" where
  "ulp x = 2 powi (binade x - 52)"

definition fl_real :: "real \<Rightarrow> real" where
  "fl_real x = sgn x * (of_int (round_even (\<bar>x\<bar> / ulp x)) * ulp x)"

datatype double = Not_a_Number | Infinity | Neg_Infinity | Finite real

text \<open>\<open>fl x\<close> is the double an operation returns when its exact result is \<open>x\<close>.\<close>

definition fl :: "real \<Rightarrow> double" where
  "fl x =
     (let y = fl_real x
      in if 2 ^ 1024 \<le> y then Infinity else if y \<le> - (2 ^ 1024) then Neg_Infinity else Finite y)"

text \<open>\<open>a + b\<close>, \<open>a - b\<close> and \<open>a * b\<close>: \<open>NaN\<close> is contagious, \<open>Infinity - Infinity\<close>
  and \<open>Infinity * 0\<close> are \<open>NaN\<close>.\<close>

fun dbl_neg :: "double \<Rightarrow> double" where
  "dbl_neg (Finite a) = Finite (- a)"
| "dbl_neg Infinity = Neg_Infinity"
| "dbl_neg Neg_Infinity = Infinity"
| "dbl_neg Not_a_Number = Not_a_Number"

fun dbl_add :: "double \<Rightarrow> double \<Rightarrow> double" where
  "dbl_add (Finite a) (Finite b) = fl (a + b)"
| "dbl_add Not_a_Number _ = Not_a_Number"
| "dbl_add _ Not_a_Number = Not_a_Number"
| "dbl_add Infinity Neg_Infinity = Not_a_Number"
| "dbl_add Neg_Infinity Infinity = Not_a_Number"
| "dbl_add Infinity _ = Infinity"
| "dbl_add _ Infinity = Infinity"
| "dbl_add Neg_Infinity _ = Neg_Infinity"
| "dbl_add _ Neg_Infinity = Neg_Infinity"

definition dbl_sub :: "double \<Rightarrow> double \<Rightarrow> double" where
  "dbl_sub a b = dbl_add a (dbl_neg b)"

fun dbl_sign :: "double \<Rightarrow> int" where
  "dbl_sign (Finite a) = (if a < 0 then - 1 else if a = 0 then 0 else 1)"
| "dbl_sign Infinity = 1"
| "dbl_sign Neg_Infinity = - 1"
| "dbl_sign Not_a_Number = 0"

definition dbl_mul :: "double \<Rightarrow> double \<Rightarrow> double" where
  "dbl_mul a b =
     (if a = Not_a_Number \<or> b = Not_a_Number then Not_a_Number
      else case (a, b) of
             (Finite x, Finite y) \<Rightarrow> fl (x * y)
           | _ \<Rightarrow> if dbl_sign a * dbl_sign b = 0 then Not_a_Number
                  else if 0 < dbl_sign a * dbl_sign b then Infinity else Neg_Infinity)"

text \<open>\<open>a <= b\<close> and \<open>a < b\<close>: every comparison with \<open>NaN\<close> is false.\<close>

fun dbl_le :: "double \<Rightarrow> double \<Rightarrow> bool" where
  "dbl_le (Finite a) (Finite b) = (a \<le> b)"
| "dbl_le Not_a_Number _ = False"
| "dbl_le _ Not_a_Number = False"
| "dbl_le Neg_Infinity _ = True"
| "dbl_le _ Infinity = True"
| "dbl_le Infinity _ = False"
| "dbl_le _ Neg_Infinity = False"


text \<open>\<open>Math.max(a, b)\<close> is \<open>NaN\<close> when an argument is; \<open>Math.round(a)\<close> is the
  nearest integer, a tie going up, and leaves \<open>NaN\<close> and the infinities as they are.
  The rounded value is a double again: below \<open>2^52\<close> in magnitude it is a small integer,
  and from there on \<open>a\<close> is an integer itself.\<close>

definition Math_max :: "double \<Rightarrow> double \<Rightarrow> double" where
  "Math_max a b =
     (if a = Not_a_Number \<or> b = Not_a_Number then Not_a_Number
      else if dbl_le a b then b else a)"

fun Math_round :: "double \<Rightarrow> double" where
  "Math_round (Finite a) = Finite (of_int \<lfloor>a + 1 / 2\<rfloor>)"
| "Math_round v = v"

text \<open>\<open>Math.random()\<close> draws from a source of numbers of \<open>[0, 1)\<close>; the source is
  the state it advances.\<close>

type_synonym rng = "real stream"

definition Math_random :: "rng \<Rightarrow> real \<times> rng" where
  "Math_random g = (shd g, stl g)"

subsection \<open>parseInt\<close>

text \<open>
  \<open>parseInt(string)\<close> with no radix, after ECMAScript: leading white space is
  skipped, then an optional sign, then the prefix \<open>0x\<close> or \<open>0X\<close> selects radix 16 (radix
  10 otherwise), then the longest run of digits of that radix is read; what follows
  the digits, a decimal point for one, is ignored. The integer read, \<open>mathInt\<close>, is
  returned as a number, that is rounded to a double: a long run of digits loses its low
  digits, and from 309 digits on it is \<open>Infinity\<close>. No digit at all gives \<open>NaN\<close>.

  A string is a list of 8-bit characters, so the white space is the ASCII white space
  and the no-break space U+00A0; the white space of ECMAScript above U+00FF is outside
  the type.
\<close>

definition isWhiteSpace :: "char \<Rightarrow> bool" where
  "isWhiteSpace c =
     (c \<in> set [CHR 0x09, CHR 0x0A, CHR 0x0B, CHR 0x0C, CHR 0x0D, CHR 0x20, CHR 0xA0])"

definition digit_of :: "nat \<Rightarrow> char \<Rightarrow> nat option" where
  "digit_of R c =
     (let n = (of_char c :: nat);
          v = (if 48 \<le> n \<and> n \<le> 57 then Some (n - 48)
               else if 97 \<le> n \<and> n \<le> 122 then Some (n - 87)
               else if 65 \<le> n \<and> n \<le> 90 then Some (n - 55)
               else None)
      in case v of None \<Rightarrow> None | Some d \<Rightarrow> if d < R then Some d else None)"

fun digits_value :: "nat \<Rightarrow> nat \<Rightarrow> string \<Rightarrow> nat" where
  "digits_value R acc [] = acc"
| "digits_value R acc (c # cs) =
     (case digit_of R c of None \<Rightarrow> acc | Some d \<Rightarrow> digits_value R (acc * R + d) cs)"

definition mathInt :: "string \<Rightarrow> int option" where
  "mathInt str =
     (let S = dropWhile isWhiteSpace str;
          sign = (if S \<noteq> [] \<and> hd S = CHR ''-'' then - 1 else 1);
          S1 = (if S \<noteq> [] \<and> (hd S = CHR ''+'' \<or> hd S = CHR ''-'') then tl S else S);
          hex = (take 2 S1 = ''0x'' \<or> take 2 S1 = ''0X'');
          R = (if hex then 16 else 10);
          S2 = (if hex then drop 2 S1 else S1);
          Z = takeWhile (\<lambda>c. digit_of R c \<noteq> None) S2
      in if Z = [] then None else Some (sign * int (digits_value R 0 Z)))"

definition parseInt :: "string \<Rightarrow> double" where
  "parseInt str = (case mathInt str of None \<Rightarrow> Not_a_Number | Some n \<Rightarrow> fl (of_int n))"

text \<open>\<open>v || d\<close> on the result of \<open>parseInt\<close>: \<open>NaN\<close> and \<open>0\<close> are falsy, so both
  give the default; \<open>Infinity\<close> is truthy.\<close>

definition or_default :: "double \<Rightarrow> double \<Rightarrow> double" where
  "or_default v d = (if v = Not_a_Number \<or> v = Finite 0 then d else v)"

subsection \<open>Derived datasets: residuals and the error histogram\<close>

text \<open>
  \<open>createResidualPlot\<close> (lines 308-312) maps over \<open>actual\<close> with the index:
  \<^verbatim>\<open>actual.map((actual, i) => ({ x: actual, y: actual - ebm[i] }))\<close>
\<close>

record residual_point =
  point_x :: jsnum
  point_y :: jsnum

definition residuals :: "jsnum list \<Rightarrow> jsnum list \<Rightarrow> residual_point list" where
  "residuals actual ebm =
     map (\<lambda>(i, a). \<lparr>point_x = a, point_y = js_sub a (js_index ebm i)\<rparr>) (enumerate 0 actual)"

text \<open>
  \<open>createErrorDistributionChart\<close> (lines 376-385):
  \<^verbatim>\<open>errors = actual.map((actual, i) => Math.abs(actual - ebm[i]))\<close>
  \<^verbatim>\<open>histogram = bins.slice(0, -1).map((bin, i) =>
      errors.filter(e => e >= bin && e < bins[i + 1]).length)\<close>
  The script's \<open>bins\<close> is a constant; the histogram is written for any list of edges.
\<close>

definition errors :: "jsnum list \<Rightarrow> jsnum list \<Rightarrow> jsnum list" where
  "errors actual ebm = map (\<lambda>(i, a). Math_abs (js_sub a (js_index ebm i))) (enumerate 0 actual)"

definition bins :: "real list" where
  "bins = [0, 500, 1000, 1500, 2000, 2500, 3000, 3500, 4000]"

definition histogram :: "real list \<Rightarrow> jsnum list \<Rightarrow> nat list" where
  "histogram edges errs =
     map (\<lambda>(i, bin). length (filter (\<lambda>e. js_ge e bin \<and> js_lt e (edges ! (i + 1))) errs))
       (enumerate 0 (butlast edges))"

text \<open>The test of the filter, \<open>e >= lo && e < hi\<close>, by name: \<open>e\<close> lies in the
  half-open range from \<open>lo\<close> to \<open>hi\<close>.\<close>

definition in_bin :: "real \<Rightarrow> real \<Rightarrow> jsnum \<Rightarrow> bool" where
  "in_bin lo hi e = (js_ge e lo \<and> js_lt e hi)"

subsection \<open>The prediction form\<close>

text \<open>
  \<open>handlePredictionSubmit\<close> (lines 471-497) reads four form fields, parses three of
  them with \<open>parseInt(...) || default\<close>, draws two random numbers and hands the result
  object to \<open>displayPredictionResult\<close>. The model returns that object and the
  advanced random source. The markup of the page is not among the sources, so a field
  may hold any string. The literals \<open>0.85\<close>, \<open>1.15\<close> and \<open>0.1\<close> are the doubles
  nearest to these decimal fractions, \<open>fl (85 / 100)\<close> and so on; \<open>0.5\<close>, \<open>200\<close>,
  \<open>150\<close>, \<open>500\<close> and \<open>8000\<close> are doubles as they stand.
\<close>

record prediction_result =
  date :: string
  prediction :: double
  confidence :: double
  lowerBound :: double
  upperBound :: double
  therapies :: double
  sideEffects :: double

definition handlePredictionSubmit ::
  "string \<Rightarrow> string \<Rightarrow> string \<Rightarrow> string \<Rightarrow> rng \<Rightarrow> prediction_result \<times> rng" where
  "handlePredictionSubmit date_field therapies_field side_effects_field steps_field g =
     (let therapies_v = or_default (parseInt therapies_field) (Finite 0);
          sideEffects_v = or_default (parseInt side_effects_field) (Finite 0);
          lastWeekSteps = or_default (parseInt steps_field) (Finite 8000);
          basePrediction = lastWeekSteps;
          therapyImpact = dbl_mul therapies_v (Finite (- 200));
          sideEffectImpact = dbl_mul sideEffects_v (Finite (- 150));
          (r1, g1) = Math_random g;
          randomVariation = dbl_mul (dbl_sub (Finite r1) (Finite (1 / 2))) (Finite 500);
          prediction_v = Math_max (Finite 0)
             (Math_round (dbl_add (dbl_add (dbl_add basePrediction therapyImpact) sideEffectImpact)
                            randomVariation));
          (r2, g2) = Math_random g1;
          confidence_v = dbl_add (fl (85 / 100)) (dbl_mul (Finite r2) (fl (1 / 10)));
          lowerBound_v = Math_round (dbl_mul prediction_v (fl (85 / 100)));
          upperBound_v = Math_round (dbl_mul prediction_v (fl (115 / 100)))
      in (\<lparr>date = date_field, prediction = prediction_v, confidence = confidence_v,
           lowerBound = lowerBound_v, upperBound = upperBound_v,
           therapies = therapies_v, sideEffects = sideEffects_v\<rparr>, g2))"


text \<open>The point estimate as the specification words it, over the reals:
  \<open>max(0, round(recentBaseline + activeTherapies * THERAPY_WEIGHT +
  sideEffectIntensity * SIDE_EFFECT_WEIGHT + noise))\<close> with the weights -200 and -150.
  It is compared with the script's point estimate below.\<close>

definition spec_point :: "real \<Rightarrow> real \<Rightarrow> real \<Rightarrow> real \<Rightarrow> real" where
  "spec_point recentBaseline activeTherapies sideEffectIntensity noise =
     max 0 (of_int \<lfloor>recentBaseline + activeTherapies * (- 200) + sideEffectIntensity * (- 150)
                      + noise + 1 / 2\<rfloor>)"

subsection \<open>Theme and charts\<close>

text \<open>
  \<open>APP_STATE\<close> (lines 10-16) holds the current theme and the chart objects, one
  property of \<open>APP_STATE.charts\<close> per chart. A chart object is what \<open>new Chart\<close>
  returns: the model gives each a fresh number, and remembers its type and whether it
  was built with the dark colours. What the page provides is fixed but for the chart
  library, which may be loaded later: \<open>Chart_defined p t\<close> is
  \<open>typeof Chart !== 'undefined'\<close> at time \<open>t\<close> (in ms), \<open>has_canvas p k\<close> says that
  \<open>document.getElementById\<close> finds the canvas of chart \<open>k\<close>. The state also carries
  the \<open>theme\<close> entry of \<open>localStorage\<close>, the \<open>dark-mode\<close> class of the body, the log
  of the \<open>destroy()\<close> calls, the clock, and the due times of the pending
  \<open>setTimeout(initializeCharts, 500)\<close>.
\<close>

datatype chart_key = forecast | featureImportance | residual | errorDist

record chart_handle =
  hid :: nat
  chart_type :: string
  dark :: bool

record page =
  Chart_defined :: "nat \<Rightarrow> bool"
  has_canvas :: "chart_key \<Rightarrow> bool"

record app_state =
  currentTheme :: string
  stored_theme :: "string option"
  dark_mode :: bool
  charts :: "chart_key \<Rightarrow> chart_handle option"
  created :: nat
  destroyed :: "nat list"
  clock :: nat
  timers :: "nat list"

text \<open>\<open>currentTheme: localStorage.getItem('theme') || 'light'\<close>: a missing entry and
  the empty string are falsy.\<close>

definition APP_STATE :: "string option \<Rightarrow> app_state" where
  "APP_STATE stored =
     \<lparr>currentTheme = (case stored of None \<Rightarrow> ''light'' | Some t \<Rightarrow> if t = [] then ''light'' else t),
      stored_theme = stored, dark_mode = False, charts = Map.empty, created = 0,
      destroyed = [], clock = 0, timers = []\<rparr>"


text \<open>The four \<open>create...\<close> functions (lines 138-440) have one shape: return when the
  canvas is missing, otherwise store a new chart, built for the current theme, under
  the chart's key.\<close>

definition new_Chart :: "chart_key \<Rightarrow> string \<Rightarrow> page \<Rightarrow> app_state \<Rightarrow> app_state" where
  "new_Chart k ty p s =
     (if \<not> has_canvas p k then s
      else s\<lparr>charts := (charts s)(k \<mapsto> \<lparr>hid = created s, chart_type = ty,
                                         dark = (currentTheme s = ''dark'')\<rparr>),
             created := Suc (created s)\<rparr>)"

definition createForecastComparisonChart :: "page \<Rightarrow> app_state \<Rightarrow> app_state" where
  "createForecastComparisonChart = new_Chart forecast ''line''"

definition createFeatureImportanceChart :: "page \<Rightarrow> app_state \<Rightarrow> app_state" where
  "createFeatureImportanceChart = new_Chart featureImportance ''bar''"

definition createResidualPlot :: "page \<Rightarrow> app_state \<Rightarrow> app_state" where
  "createResidualPlot = new_Chart residual ''scatter''"

definition createErrorDistributionChart :: "page \<Rightarrow> app_state \<Rightarrow> app_state" where
  "createErrorDistributionChart = new_Chart errorDist ''bar''"

text \<open>\<open>initializeCharts\<close> (lines 124-136): one call. Without the library it sets a
  timer for itself, 500 ms from now, and returns.\<close>

definition initializeCharts :: "page \<Rightarrow> app_state \<Rightarrow> app_state" where
  "initializeCharts p s =
     (if \<not> Chart_defined p (clock s) then s\<lparr>timers := timers s @ [clock s + 500]\<rparr>
      else createErrorDistributionChart p (createResidualPlot p
             (createFeatureImportanceChart p (createForecastComparisonChart p s))))"

text \<open>The event loop on these timers: the earliest pending timer fires, the clock moves
  to its due time, \<open>initializeCharts\<close> runs again; the loop is over when no timer is
  pending. A loop that never ends has the value \<open>None\<close>.\<close>

partial_function (option) run_timers :: "page \<Rightarrow> app_state \<Rightarrow> app_state option" where
  "run_timers p s =
     (case timers s of
        [] \<Rightarrow> Some s
      | t # ts \<Rightarrow> run_timers p (initializeCharts p (s\<lparr>clock := max (clock s) t, timers := ts\<rparr>)))"





text \<open>Two pages for the examples: one where the chart library never loads, one where it
  is there from 1500 ms on. Both have all four canvases.\<close>

definition page_never :: page where
  "page_never = \<lparr>Chart_defined = (\<lambda>t. False), has_canvas = (\<lambda>k. True)\<rparr>"

definition page_late :: page where
  "page_late = \<lparr>Chart_defined = (\<lambda>t. 1500 \<le> t), has_canvas = (\<lambda>k. True)\<rparr>"



subsection \<open>Exports\<close>

text \<open>
  What the user sees of an export: the toasts (\<open>showToast(message, type)\<close>), the plain
  notifications (\<open>showNotification(message)\<close>), the loading overlay, and the downloads
  triggered, each a file name with its content.
\<close>

datatype toast_kind = Info | Success | Error | Warning

record ui =
  toasts :: "(string \<times> toast_kind) list"
  notifications :: "string list"
  loading :: bool
  downloads :: "(string \<times> string) list"

text \<open>
  \<open>exportChartsAsImages\<close> (lines 965-996, the later of the two declarations of that
  name, which is the one in force). Without \<open>html2canvas\<close> it shows one error toast and
  returns. Otherwise it starts one promise chain per chart canvas,
  \<^verbatim>\<open>html2canvas(canvas.parentElement).then(...download, count...).catch(...error toast...)\<close>
  and returns; the chains settle later, each on its own. A chain settles either with the
  image rendered (at time \<open>Date.now()\<close>, with the data URL of the image), or rejected.
  The model takes the number \<open>n\<close> of canvases and the settlements that have happened, in
  the order they happened, each with the index of its canvas.
\<close>

datatype raster = Rasterized nat string | Rejected

definition settle :: "nat \<Rightarrow> nat \<times> raster \<Rightarrow> ui \<times> nat \<Rightarrow> ui \<times> nat" where
  "settle n ev st =
     (case (ev, st) of
        ((index, Rasterized now url), (u, exportedCount)) \<Rightarrow>
          (let u1 = u\<lparr>downloads := downloads u @
                      [(''chart_'' @ digits (index + 1) @ ''_'' @ digits now @ ''.png'', url)]\<rparr>;
               c = exportedCount + 1
           in if c = n
              then (u1\<lparr>loading := False,
                       toasts := toasts u1 @ [(digits c @ '' charts exported successfully!'', Success)]\<rparr>, c)
              else (u1, c))
      | ((index, Rejected), (u, exportedCount)) \<Rightarrow>
          (u\<lparr>loading := False,
              toasts := toasts u @ [(''Error exporting charts. Please try again.'', Error)]\<rparr>,
           exportedCount))"

definition exportChartsAsImages :: "bool \<Rightarrow> nat \<Rightarrow> (nat \<times> raster) list \<Rightarrow> ui \<Rightarrow> ui" where
  "exportChartsAsImages html2canvas_defined n settled u =
     (if \<not> html2canvas_defined
      then u\<lparr>toasts := toasts u @
                 [(''Chart export library not loaded. Please refresh the page.'', Error)]\<rparr>
      else fst (fold (settle n) settled
                  (u\<lparr>loading := True,
                     toasts := toasts u @ [(''Exporting charts as images...'', Info)]\<rparr>, 0)))"

text \<open>Counting, for the statements: the error toasts and the success toasts shown, the
  surfaces rendered and the surfaces rejected among the settlements, and the file a
  rendered surface is downloaded as.\<close>

definition reported :: "toast_kind \<Rightarrow> ui \<Rightarrow> nat" where
  "reported kind u = length (filter (\<lambda>t. snd t = kind) (toasts u))"

definition is_rejected :: "nat \<times> raster \<Rightarrow> bool" where
  "is_rejected ev = (snd ev = Rejected)"

fun image_files :: "(nat \<times> raster) list \<Rightarrow> (string \<times> string) list" where
  "image_files [] = []"
| "image_files ((index, Rasterized now url) # evs) =
     (''chart_'' @ digits (index + 1) @ ''_'' @ digits now @ ''.png'', url) # image_files evs"
| "image_files ((index, Rejected) # evs) = image_files evs"

definition blank_ui :: ui where
  "blank_ui = \<lparr>toasts = [], notifications = [], loading = False, downloads = []\<rparr>"















section \<open>Properties\<close>

subsection \<open>Residuals\<close>

lemma residuals_length: "length (residuals a p) = length a"
  by (simp add: residuals_def)

lemma residuals_nth:
  "i < length a \<Longrightarrow>
   residuals a p ! i = \<lparr>point_x = a ! i, point_y = js_sub (a ! i) (js_index p i)\<rparr>"
  by (simp add: residuals_def nth_enumerate_eq)

text \<open>
  C1, as the script computes it. The result has one point per element of \<open>actual\<close>
  (not per overlapping pair): point \<open>i\<close> carries \<open>actual[i]\<close> and the residual
  \<open>actual[i] - ebm[i]\<close>, which is \<open>NaN\<close> once \<open>i\<close> is past the end of \<open>ebm\<close>. So the
  length is \<open>min (length actual) (length ebm)\<close> exactly when \<open>actual\<close> is not the longer
  list, and the result is empty exactly when \<open>actual\<close> is empty.
\<close>

theorem C1_residuals:
  "length (residuals actual ebm) = length actual \<and>
   (\<forall>i < length actual.
      point_x (residuals actual ebm ! i) = actual ! i \<and>
      point_y (residuals actual ebm ! i) =
        (if i < length ebm then js_sub (actual ! i) (ebm ! i) else NaN)) \<and>
   (length actual \<le> length ebm \<longrightarrow>
      length (residuals actual ebm) = min (length actual) (length ebm)) \<and>
   (residuals actual ebm = [] \<longleftrightarrow> actual = [])"
proof (intro conjI allI impI)
  show "residuals actual ebm = [] \<longleftrightarrow> actual = []"
    using residuals_length [of actual ebm] by (metis length_0_conv)
qed (simp_all add: residuals_length residuals_nth js_index_def)

text \<open>The scenario of the specification: \<open>actual = [95, 112]\<close> against
  \<open>ebm = [90, 115, 125]\<close> gives the residuals \<open>5\<close> and \<open>-3\<close>.\<close>

theorem C1_residuals_witness:
  "residuals [Num 95, Num 112] [Num 90, Num 115, Num 125] =
     [\<lparr>point_x = Num 95, point_y = Num 5\<rparr>, \<lparr>point_x = Num 112, point_y = Num (- 3)\<rparr>] \<and>
   length (residuals [Num 95, Num 112] [Num 90, Num 115, Num 125]) = min 2 3"
  using C1_residuals [of "[Num 95, Num 112]" "[Num 90, Num 115, Num 125]"]
  by (simp add: residuals_def js_index_def)

text \<open>With an empty prediction list the result is not empty, and its length is not the
  minimum of the two lengths: the one actual value is kept, with a \<open>NaN\<close> residual.\<close>

theorem C1_shorter_prediction_counterexample:
  "residuals [Num 95] [] = [\<lparr>point_x = Num 95, point_y = NaN\<rparr>] \<and>
   length (residuals [Num 95] []) \<noteq> min (length [Num 95]) (length ([] :: jsnum list)) \<and>
   residuals [Num 95] [] \<noteq> []"
  by (simp add: residuals_def js_index_def)

subsection \<open>Rounding to a double\<close>

text \<open>Rounding to the nearest integer is monotone and leaves integers alone.\<close>

lemma round_even_cases: "round_even q = \<lfloor>q\<rfloor> \<or> round_even q = \<lfloor>q\<rfloor> + 1"
  by (simp add: round_even_def Let_def)

lemma round_even_of_int [simp]: "round_even (of_int n) = n"
  by (simp add: round_even_def)

lemma round_even_mono:
  assumes "q \<le> q'"
  shows "round_even q \<le> round_even q'"
proof -
  have f: "\<lfloor>q\<rfloor> \<le> \<lfloor>q'\<rfloor>" using assms by (rule floor_mono)
  show ?thesis
  proof (cases "\<lfloor>q\<rfloor> = \<lfloor>q'\<rfloor>")
    case True
    then show ?thesis using assms by (auto simp: round_even_def Let_def)
  next
    case False
    then have "\<lfloor>q\<rfloor> + 1 \<le> \<lfloor>q'\<rfloor>" using f by simp
    then show ?thesis using round_even_cases [of q] round_even_cases [of q'] by auto
  qed
qed

lemma round_even_ge: "of_int n \<le> q \<Longrightarrow> n \<le> round_even q"
  using round_even_mono [of "of_int n" q] by simp

lemma round_even_le: "q \<le> of_int n \<Longrightarrow> round_even q \<le> n"
  using round_even_mono [of q "of_int n"] by simp

text \<open>\<open>ilog2\<close> is the floor of the binary logarithm, so \<open>binade x\<close> is the exponent
  \<open>k\<close> with \<open>2^k \<le> |x| < 2^(k+1)\<close>, and -1022 below \<open>2^-1022\<close>.\<close>

lemma powr_powi: "(2::real) powr real_of_int k = 2 powi k"
  by (rule powr_real_of_int') simp_all

lemma powr_powi_Suc: "(2::real) powr (real_of_int k + 1) = 2 powi (k + 1)"
proof -
  have "real_of_int k + 1 = real_of_int (k + 1)" by simp
  then show ?thesis by (simp only: powr_powi)
qed

lemma floor_log2_eq:
  assumes "2 powi k \<le> x" and "x < 2 powi (k + 1)"
  shows "\<lfloor>log 2 x\<rfloor> = k"
proof -
  have "(0::real) < 2 powi k" by simp
  then have pos: "0 < x" using assms(1) by linarith
  have "2 powr real_of_int k \<le> x \<and> x < 2 powr (real_of_int k + 1)"
    using assms unfolding powr_powi powr_powi_Suc by simp
  then show ?thesis using pos floor_log_eq_powr_iff [of x 2 k] by simp
qed

lemma floor_log2_bounds:
  assumes "0 < x"
  shows "2 powi \<lfloor>log 2 x\<rfloor> \<le> x" and "x < 2 powi (\<lfloor>log 2 x\<rfloor> + 1)"
proof -
  have "2 powr real_of_int \<lfloor>log 2 x\<rfloor> \<le> x \<and> x < 2 powr (real_of_int \<lfloor>log 2 x\<rfloor> + 1)"
    using assms floor_log_eq_powr_iff [of x 2 "\<lfloor>log 2 x\<rfloor>"] by simp
  then show "2 powi \<lfloor>log 2 x\<rfloor> \<le> x" and "x < 2 powi (\<lfloor>log 2 x\<rfloor> + 1)"
    unfolding powr_powi powr_powi_Suc by simp_all
qed

lemma powi_le_iff: "(2::real) powi m \<le> 2 powi n \<longleftrightarrow> m \<le> n"
proof
  assume a: "(2::real) powi m \<le> 2 powi n"
  show "m \<le> n"
  proof (rule ccontr)
    assume "\<not> m \<le> n"
    then have "n < m" by simp
    then have "(2::real) powi n < 2 powi m" by (intro power_int_strict_increasing) simp_all
    then show False using a by simp
  qed
next
  assume "m \<le> n"
  then show "(2::real) powi m \<le> 2 powi n" by (intro power_int_increasing) simp_all
qed

lemma powi_less_iff: "(2::real) powi m < 2 powi n \<longleftrightarrow> m < n"
  using powi_le_iff [of n m] by (simp add: not_le [symmetric])

lemma ilog2_floor_log: "0 < x \<Longrightarrow> ilog2 x = \<lfloor>log 2 x\<rfloor>"
proof (induction x rule: ilog2.induct)
  case (1 x)
  show ?case
  proof (cases "2 \<le> x")
    case True
    then have "ilog2 x = ilog2 (x / 2) + 1" using 1(3) by (subst ilog2.simps) simp
    also have "ilog2 (x / 2) = \<lfloor>log 2 (x / 2)\<rfloor>" using 1(1) True 1(3) by simp
    also have "log 2 (x / 2) = log 2 x - 1" using 1(3) by (simp add: log_divide)
    finally show ?thesis by simp
  next
    case False
    show ?thesis
    proof (cases "x < 1")
      case True
      then have "ilog2 x = ilog2 (x * 2) - 1" using 1(3) False by (subst ilog2.simps) simp
      also have "ilog2 (x * 2) = \<lfloor>log 2 (x * 2)\<rfloor>" using 1(2) True False 1(3) by simp
      also have "log 2 (x * 2) = log 2 x + 1" using 1(3) by (simp add: log_mult)
      finally show ?thesis by simp
    next
      case ge: False
      then have "ilog2 x = 0" using False 1(3) by (subst ilog2.simps) simp
      moreover have "2 powi 0 \<le> x" "x < 2 powi (0 + 1)" using ge False by simp_all
      then have "\<lfloor>log 2 x\<rfloor> = 0" by (rule floor_log2_eq)
      ultimately show ?thesis by simp
    qed
  qed
qed

lemma binade_alt: "binade x = max \<lfloor>log 2 \<bar>x\<bar>\<rfloor> (- 1022)"
proof (cases "x = 0")
  case True
  then show ?thesis by (simp add: binade_def ilog2.simps log_def)
next
  case False
  then show ?thesis by (simp add: binade_def ilog2_floor_log)
qed

lemma binade_eval:
  assumes "2 powi k \<le> \<bar>x\<bar>" and "\<bar>x\<bar> < 2 powi (k + 1)" and "- 1022 \<le> k"
  shows "binade x = k"
  using floor_log2_eq [OF assms(1,2)] assms(3) by (simp add: binade_alt)

lemma binade_normal:
  assumes "2 powi (- 1022) \<le> \<bar>x\<bar>"
  shows "2 powi binade x \<le> \<bar>x\<bar>" and "\<bar>x\<bar> < 2 powi (binade x + 1)"
proof -
  let ?L = "\<lfloor>log 2 \<bar>x\<bar>\<rfloor>"
  have "(0::real) < 2 powi (- 1022)" by simp
  then have pos: "0 < \<bar>x\<bar>" using assms by linarith
  have L: "2 powi ?L \<le> \<bar>x\<bar>" "\<bar>x\<bar> < 2 powi (?L + 1)"
    using floor_log2_bounds [OF pos] by simp_all
  have "(2::real) powi (- 1022) < 2 powi (?L + 1)" using assms L(2) by linarith
  then have "- 1022 < ?L + 1" by (simp only: powi_less_iff)
  then have "binade x = ?L" by (simp add: binade_alt)
  then show "2 powi binade x \<le> \<bar>x\<bar>" and "\<bar>x\<bar> < 2 powi (binade x + 1)"
    using L by simp_all
qed

lemma binade_subnormal:
  assumes "x \<noteq> 0" and "\<bar>x\<bar> < 2 powi (- 1022)"
  shows "binade x = - 1022"
proof -
  let ?L = "\<lfloor>log 2 \<bar>x\<bar>\<rfloor>"
  have pos: "0 < \<bar>x\<bar>" using assms(1) by simp
  have "2 powi ?L \<le> \<bar>x\<bar>" using floor_log2_bounds(1) [OF pos] .
  then have "(2::real) powi ?L < 2 powi (- 1022)" using assms(2) by linarith
  then have "?L < - 1022" by (simp only: powi_less_iff)
  then show ?thesis by (simp add: binade_alt)
qed

lemma binade_upper:
  assumes "x \<noteq> 0"
  shows "\<bar>x\<bar> < 2 powi (binade x + 1)"
proof (cases "2 powi (- 1022) \<le> \<bar>x\<bar>")
  case True
  then show ?thesis by (rule binade_normal(2))
next
  case False
  then have lt: "\<bar>x\<bar> < 2 powi (- 1022)" by simp
  have "(2::real) powi (- 1022) \<le> 2 powi (- 1022 + 1)" by (simp only: powi_le_iff)
  then show ?thesis using binade_subnormal [OF assms lt] lt by simp
qed

lemma binade_ge: "- 1022 \<le> binade x"
  by (simp add: binade_alt)

lemma binade_mono:
  assumes "x \<noteq> 0" and "\<bar>x\<bar> \<le> \<bar>y\<bar>"
  shows "binade x \<le> binade y"
proof -
  have "0 < \<bar>x\<bar>" using assms(1) by simp
  then have "log 2 \<bar>x\<bar> \<le> log 2 \<bar>y\<bar>" using assms(2) by simp
  then have "\<lfloor>log 2 \<bar>x\<bar>\<rfloor> \<le> \<lfloor>log 2 \<bar>y\<bar>\<rfloor>" by (rule floor_mono)
  then show ?thesis by (simp add: binade_alt)
qed

lemma binade_abs [simp]: "binade \<bar>x\<bar> = binade x" "binade (- x) = binade x"
  by (simp_all add: binade_alt)

lemma ulp_pos [simp]: "0 < ulp x"
  by (simp add: ulp_def)

lemma ulp_nonneg [simp]: "0 \<le> ulp x"
  by (simp add: ulp_def)

lemma ulp_neq0 [simp]: "ulp x \<noteq> 0"
  by (simp add: ulp_def)

lemma ulp_abs [simp]: "ulp \<bar>x\<bar> = ulp x" "ulp (- x) = ulp x"
  by (simp_all add: ulp_def)

lemma ulp_scale: "2 powi (binade x + n) = of_int (2 ^ nat (n + 52)) * ulp x" if "- 52 \<le> n"
proof -
  define m where "m = nat (n + 52)"
  have e: "binade x + n = int m + (binade x - 52)" using that by (simp add: m_def)
  have "(2::real) powi (int m + (binade x - 52)) = 2 powi int m * 2 powi (binade x - 52)"
    by (rule power_int_add) simp
  also have "(2::real) powi int m = 2 ^ m" by (rule power_int_of_nat)
  finally show ?thesis unfolding e ulp_def m_def by simp
qed

text \<open>Rounding to a double is odd and monotone, also across binades.\<close>

lemma fl_real_pos:
  assumes "0 < x"
  shows "fl_real x = of_int (round_even (x / ulp x)) * ulp x"
  using assms by (simp add: fl_real_def)

lemma fl_real_zero [simp]: "fl_real 0 = 0"
  by (simp add: fl_real_def)

lemma fl_real_minus: "fl_real (- x) = - fl_real x"
  by (simp add: fl_real_def sgn_minus)

lemma fl_real_nonneg:
  assumes "0 < x"
  shows "0 \<le> fl_real x"
proof -
  have "(0::real) \<le> x / ulp x" using assms by (intro divide_nonneg_pos) simp_all
  then have "0 \<le> round_even (x / ulp x)" using round_even_ge [of 0] by simp
  then show ?thesis unfolding fl_real_pos [OF assms] by simp
qed

lemma fl_real_upper:
  assumes "0 < x"
  shows "fl_real x \<le> 2 powi (binade x + 1)"
proof -
  have "x < 2 powi (binade x + 1)" using binade_upper [of x] assms by simp
  then have "x < of_int (2 ^ 53) * ulp x" using ulp_scale [of 1 x] by simp
  then have "x / ulp x \<le> of_int (2 ^ 53)" by (simp add: pos_divide_le_eq)
  then have "round_even (x / ulp x) \<le> 2 ^ 53" by (rule round_even_le)
  then have "of_int (round_even (x / ulp x)) * ulp x \<le> of_int (2 ^ 53) * ulp x"
    by (intro mult_right_mono) simp_all
  then show ?thesis unfolding fl_real_pos [OF assms] using ulp_scale [of 1 x] by simp
qed

lemma fl_real_lower:
  assumes "2 powi (- 1022) \<le> x"
  shows "2 powi binade x \<le> fl_real x"
proof -
  have "(0::real) < 2 powi (- 1022)" by simp
  then have pos: "0 < x" using assms by linarith
  have "2 powi binade x \<le> x" using binade_normal(1) [of x] assms pos by simp
  then have "of_int (2 ^ 52) * ulp x \<le> x" using ulp_scale [of 0 x] by simp
  then have "of_int (2 ^ 52) \<le> x / ulp x" by (simp add: pos_le_divide_eq)
  then have "2 ^ 52 \<le> round_even (x / ulp x)" by (rule round_even_ge)
  then have "of_int (2 ^ 52) * ulp x \<le> of_int (round_even (x / ulp x)) * ulp x"
    by (intro mult_right_mono) simp_all
  then show ?thesis unfolding fl_real_pos [OF pos] using ulp_scale [of 0 x] by simp
qed

lemma fl_real_mono_pos:
  assumes "0 < x" and "x \<le> y"
  shows "fl_real x \<le> fl_real y"
proof -
  have ypos: "0 < y" using assms by linarith
  have b: "binade x \<le> binade y" using binade_mono [of x y] assms by simp
  show ?thesis
  proof (cases "binade x = binade y")
    case True
    then have u: "ulp x = ulp y" by (simp add: ulp_def)
    have "x / ulp y \<le> y / ulp y" using assms(2) by (intro divide_right_mono) simp_all
    then have "round_even (x / ulp y) \<le> round_even (y / ulp y)" by (rule round_even_mono)
    then have "of_int (round_even (x / ulp y)) * ulp y \<le> of_int (round_even (y / ulp y)) * ulp y"
      by (intro mult_right_mono) simp_all
    then show ?thesis unfolding fl_real_pos [OF assms(1)] fl_real_pos [OF ypos] u .
  next
    case False
    then have lt: "binade x + 1 \<le> binade y" using b by simp
    then have gt: "- 1022 < binade y" using binade_ge [of x] by linarith
    define L where "L = \<lfloor>log 2 \<bar>y\<bar>\<rfloor>"
    have "binade y = max L (- 1022)" by (simp add: binade_alt L_def)
    then have "binade y = L" using gt by linarith
    then have eqL: "binade y = \<lfloor>log 2 y\<rfloor>" using ypos by (simp add: L_def)
    have "2 powi binade y \<le> y" unfolding eqL using floor_log2_bounds(1) [OF ypos] .
    moreover have "(2::real) powi (- 1022) \<le> 2 powi binade y"
      using binade_ge [of y] by (simp only: powi_le_iff)
    ultimately have "2 powi (- 1022) \<le> y" by linarith
    then have "2 powi binade y \<le> fl_real y" by (rule fl_real_lower)
    moreover have "(2::real) powi (binade x + 1) \<le> 2 powi binade y"
      using lt by (simp only: powi_le_iff)
    ultimately show ?thesis using fl_real_upper [OF assms(1)] by linarith
  qed
qed

lemma fl_real_mono:
  assumes "x \<le> y"
  shows "fl_real x \<le> fl_real y"
proof -
  consider "0 < x" | "x \<le> 0" "0 \<le> y" | "y < 0" using assms by linarith
  then show ?thesis
  proof cases
    case 1
    then show ?thesis using assms by (rule fl_real_mono_pos)
  next
    case 2
    have "fl_real x \<le> 0"
    proof (cases "x = 0")
      case True
      then show ?thesis by simp
    next
      case False
      then have "0 < - x" using 2(1) by simp
      then have "0 \<le> fl_real (- x)" by (rule fl_real_nonneg)
      then show ?thesis by (simp add: fl_real_minus)
    qed
    moreover have "0 \<le> fl_real y"
    proof (cases "y = 0")
      case True
      then show ?thesis by simp
    next
      case False
      then have "0 < y" using 2(2) by simp
      then show ?thesis by (rule fl_real_nonneg)
    qed
    ultimately show ?thesis by linarith
  next
    case 3
    then have "0 < - y" "- y \<le> - x" using assms by simp_all
    then have "fl_real (- y) \<le> fl_real (- x)" by (rule fl_real_mono_pos)
    then show ?thesis by (simp add: fl_real_minus)
  qed
qed

text \<open>The doubles are fixed: every \<open>m * 2^e\<close> with \<open>|m| < 2^53\<close> and \<open>-1074 \<le> e\<close>, among
  them the integers below \<open>2^53\<close> in magnitude.\<close>

lemma fl_real_exact:
  assumes "\<bar>x\<bar> / ulp x = of_int n"
  shows "fl_real x = x"
proof -
  have "of_int (round_even (\<bar>x\<bar> / ulp x)) * ulp x = \<bar>x\<bar> / ulp x * ulp x"
    unfolding assms by simp
  also have "\<dots> = \<bar>x\<bar>" using ulp_pos [of x] by simp
  finally have "of_int (round_even (\<bar>x\<bar> / ulp x)) * ulp x = \<bar>x\<bar>" .
  then show ?thesis unfolding fl_real_def by (simp only: sgn_mult_abs)
qed

lemma fl_real_fix:
  assumes "x = of_int m * 2 powi e" and "\<bar>m\<bar> < 2 ^ 53" and "- 1074 \<le> e"
  shows "fl_real x = x"
proof (cases "m = 0")
  case True
  then show ?thesis using assms(1) by simp
next
  case False
  then have x0: "x \<noteq> 0" using assms(1) by simp
  have ax: "\<bar>x\<bar> = of_int \<bar>m\<bar> * 2 powi e" using assms(1) by (simp add: abs_mult)
  have "real_of_int \<bar>m\<bar> < 2 ^ 53" using assms(2) by (metis of_int_less_numeral_power_cancel_iff)
  then have "\<bar>x\<bar> < 2 ^ 53 * 2 powi e" unfolding ax by (intro mult_strict_right_mono) simp_all
  also have "(2::real) ^ 53 * 2 powi e = 2 powi (53 + e)" by (simp add: power_int_add)
  finally have up: "\<bar>x\<bar> < 2 powi (53 + e)" .
  define L where "L = \<lfloor>log 2 \<bar>x\<bar>\<rfloor>"
  have "2 powi L \<le> \<bar>x\<bar>" unfolding L_def using floor_log2_bounds(1) [of "\<bar>x\<bar>"] x0 by simp
  then have "(2::real) powi L < 2 powi (53 + e)" using up by linarith
  then have "L < 53 + e" by (simp only: powi_less_iff)
  moreover have "binade x = max L (- 1022)" by (simp add: binade_alt L_def)
  ultimately have le: "binade x - 52 \<le> e" using assms(3) by linarith
  define k where "k = nat (e - (binade x - 52))"
  have e: "e = int k + (binade x - 52)" using le by (simp add: k_def)
  have "(2::real) powi (int k + (binade x - 52)) = 2 powi int k * 2 powi (binade x - 52)"
    by (rule power_int_add) simp
  also have "(2::real) powi int k = 2 ^ k" by (rule power_int_of_nat)
  finally have "(2::real) powi e = 2 ^ k * ulp x" unfolding ulp_def using e by simp
  then have "\<bar>x\<bar> / ulp x = of_int \<bar>m\<bar> * 2 ^ k" unfolding ax using ulp_pos [of x] by simp
  also have "\<dots> = of_int (\<bar>m\<bar> * 2 ^ k)" by simp
  finally show ?thesis by (rule fl_real_exact)
qed

lemma fl_real_int:
  assumes "\<bar>n\<bar> < 2 ^ 53"
  shows "fl_real (of_int n) = of_int n"
  using fl_real_fix [of "of_int n" n 0] assms by simp

lemma fl_real_dyadic:
  assumes "\<bar>m\<bar> < 2 ^ 53" and "k \<le> 1074"
  shows "fl_real (of_int m / 2 ^ k) = of_int m / 2 ^ k"
proof -
  have "of_int m / (2::real) ^ k = of_int m * 2 powi (- int k)"
    by (simp add: power_int_minus divide_inverse)
  then show ?thesis using fl_real_fix [of "of_int m / 2 ^ k" m "- int k"] assms by simp
qed

lemma fl_real_numeral:
  "numeral n < (2::int) ^ 53 \<Longrightarrow> fl_real (numeral n) = numeral n"
  "numeral n < (2::int) ^ 53 \<Longrightarrow> fl_real (- numeral n) = - numeral n"
  using fl_real_int [of "numeral n"] fl_real_int [of "- numeral n"] by simp_all

lemma fl_real_one [simp]: "fl_real 1 = 1"
  using fl_real_int [of 1] by simp

lemma fl_real_half [simp]: "fl_real (1 / 2) = 1 / 2"
  using fl_real_dyadic [of 1 1] by simp

text \<open>Computing a rounding: within the binade \<open>k\<close> it is rounding to a multiple of
  \<open>2^(k-52)\<close>.\<close>

lemma fl_real_eval:
  assumes "2 powi k \<le> \<bar>x\<bar>" and "\<bar>x\<bar> < 2 powi (k + 1)" and "- 1022 \<le> k"
  shows "fl_real x = sgn x * (of_int (round_even (\<bar>x\<bar> / 2 powi (k - 52))) * 2 powi (k - 52))"
  using binade_eval [OF assms] by (simp add: fl_real_def ulp_def)

lemma fl_finite:
  assumes "\<bar>fl_real x\<bar> < 2 ^ 1024"
  shows "fl x = Finite (fl_real x)"
  using assms by (simp add: fl_def Let_def abs_less_iff)

lemma fl_eval:
  assumes "2 powi k \<le> \<bar>x\<bar>" and "\<bar>x\<bar> < 2 powi (k + 1)" and "- 1022 \<le> k"
    and "y = sgn x * (of_int (round_even (\<bar>x\<bar> / 2 powi (k - 52))) * 2 powi (k - 52))"
    and "\<bar>y\<bar> < 2 ^ 1024"
  shows "fl x = Finite y"
proof -
  have "fl_real x = y" unfolding assms(4) by (rule fl_real_eval [OF assms(1,2,3)])
  then show ?thesis using fl_finite [of x] assms(5) by simp
qed

lemma fl_int:
  assumes "\<bar>n\<bar> < 2 ^ 53"
  shows "fl (of_int n) = Finite (of_int n)"
proof -
  have "real_of_int \<bar>n\<bar> < 2 ^ 53" using assms by (metis of_int_less_numeral_power_cancel_iff)
  moreover have "(2::real) ^ 53 < 2 ^ 1024" by simp
  ultimately have "\<bar>real_of_int n\<bar> < 2 ^ 1024" by simp
  then show ?thesis using fl_finite [of "of_int n"] fl_real_int [OF assms] by simp
qed

lemma fl_numeral [simp]:
  "numeral n < (2::int) ^ 53 \<Longrightarrow> fl (numeral n) = Finite (numeral n)"
  "numeral n < (2::int) ^ 53 \<Longrightarrow> fl (- numeral n) = Finite (- numeral n)"
  "fl 0 = Finite 0" "fl 1 = Finite 1"
  using fl_int [of "numeral n"] fl_int [of "- numeral n"] fl_int [of 0] fl_int [of 1]
  by simp_all


text \<open>A result between two doubles is rounded to a double between them.\<close>

lemma fl_between:
  assumes "lo \<le> x" and "x \<le> hi" and "fl_real lo = lo" and "fl_real hi = hi"
    and "- (2 ^ 60) \<le> lo" and "hi \<le> 2 ^ 60"
  shows "\<exists>y. fl x = Finite y \<and> lo \<le> y \<and> y \<le> hi"
proof -
  have lo: "lo \<le> fl_real x" using fl_real_mono [OF assms(1)] assms(3) by simp
  have hi: "fl_real x \<le> hi" using fl_real_mono [OF assms(2)] assms(4) by simp
  have "(2::real) ^ 60 < 2 ^ 1024" by simp
  then have "\<bar>fl_real x\<bar> < 2 ^ 1024" using lo hi assms(5,6) by linarith
  then have "fl x = Finite (fl_real x)" by (rule fl_finite)
  then show ?thesis using lo hi by blast
qed

lemma fl_abs_le:
  assumes "\<bar>x\<bar> \<le> M" and "fl_real M = M" and "M \<le> 2 ^ 60"
  shows "\<exists>y. fl x = Finite y \<and> \<bar>y\<bar> \<le> M"
proof -
  have "- M \<le> x" "x \<le> M" using assms(1) by (simp_all add: abs_le_iff)
  moreover have "fl_real (- M) = - M" using assms(2) by (simp add: fl_real_minus)
  moreover have "- (2 ^ 60) \<le> - M" using assms(3) by simp
  ultimately obtain y where "fl x = Finite y" "- M \<le> y" "y \<le> M"
    using fl_between [of "- M" x M] assms(2,3) by blast
  then show ?thesis by (auto simp: abs_le_iff)
qed

lemma fl_abs_numeral:
  assumes "\<bar>x\<bar> \<le> numeral n" and "numeral n < (2::int) ^ 53"
  shows "\<exists>y. fl x = Finite y \<and> \<bar>y\<bar> \<le> numeral n"
proof (rule fl_abs_le [OF assms(1)])
  show "fl_real (numeral n) = numeral n" by (rule fl_real_numeral(1) [OF assms(2)])
  have "real_of_int (numeral n) < real_of_int (2 ^ 53)" using assms(2) by (simp only: of_int_less_iff)
  then have "(numeral n :: real) < 2 ^ 53" by (simp only: of_int_numeral of_int_power)
  moreover have "(2::real) ^ 53 \<le> 2 ^ 60" by (rule power_increasing) simp_all
  ultimately show "(numeral n :: real) \<le> 2 ^ 60" by (rule less_imp_le [OF less_le_trans])
qed

lemma dbl_mul_Finite [simp]: "dbl_mul (Finite x) (Finite y) = fl (x * y)"
  by (simp add: dbl_mul_def)

lemma dbl_sub_Finite [simp]: "dbl_sub (Finite a) (Finite b) = fl (a - b)"
  by (simp add: dbl_sub_def)

lemma Math_max_Finite [simp]: "Math_max (Finite a) (Finite b) = Finite (max a b)"
  by (simp add: Math_max_def max_def)

text \<open>The literals of the script: \<open>0.85\<close>, \<open>1.15\<close> and \<open>0.1\<close> as doubles.\<close>

lemma double_085: "fl (85 / 100) = Finite (7656119366529843 / 2 ^ 53)"
  by (rule fl_eval [where k = "- 1"]) (simp_all add: round_even_def power_int_minus)

lemma double_115: "fl (115 / 100) = Finite (2589569785738035 / 2 ^ 51)"
  by (rule fl_eval [where k = 0]) (simp_all add: round_even_def power_int_minus)

lemma double_01: "fl (1 / 10) = Finite (3602879701896397 / 2 ^ 55)"
  by (rule fl_eval [where k = "- 4"]) (simp_all add: round_even_def power_int_minus)


subsection \<open>The prediction form\<close>

lemmas parse_eval = parseInt_def mathInt_def isWhiteSpace_def digit_of_def

lemma parse_fields:
  "parseInt ''2'' = Finite 2" "parseInt ''3'' = Finite 3" "parseInt ''8000'' = Finite 8000"
  "parseInt ''0'' = Finite 0" "parseInt ''abc'' = Not_a_Number" "parseInt [] = Not_a_Number"
  "parseInt ''8000.7'' = Finite 8000"
  by (simp_all add: parse_eval)

text \<open>\<open>parseInt\<close> returns a double: of \<open>2^53 + 1\<close> it keeps \<open>2^53\<close>. It skips a
  no-break space and reads hexadecimal digits after \<open>0x\<close>.\<close>

lemma parseInt_rounds: "parseInt ''9007199254740993'' = Finite 9007199254740992"
proof -
  have "fl 9007199254740993 = Finite 9007199254740992"
    by (rule fl_eval [where k = 53]) (simp_all add: round_even_def)
  then show ?thesis by (simp add: parse_eval)
qed

lemma parseInt_no_break_space: "parseInt (CHR 0xA0 # ''12'') = Finite 12"
  by (simp add: parse_eval)

lemma parseInt_hex: "parseInt ''0x1F'' = Finite 31"
  by (simp add: parse_eval)




lemma prediction_eq:
  "prediction (fst (handlePredictionSubmit d tf sf bf g)) =
     Math_max (Finite 0)
       (Math_round (dbl_add (dbl_add (dbl_add (or_default (parseInt bf) (Finite 8000))
            (dbl_mul (or_default (parseInt tf) (Finite 0)) (Finite (- 200))))
            (dbl_mul (or_default (parseInt sf) (Finite 0)) (Finite (- 150))))
            (dbl_mul (dbl_sub (Finite (shd g)) (Finite (1 / 2))) (Finite 500))))"
  by (simp add: handlePredictionSubmit_def Math_random_def Let_def del: dbl_sub_Finite)


lemma confidence_eq:
  "confidence (fst (handlePredictionSubmit d tf sf bf g)) =
     dbl_add (fl (85 / 100)) (dbl_mul (Finite (shd (stl g))) (fl (1 / 10)))"
  by (simp add: handlePredictionSubmit_def Math_random_def Let_def)

text \<open>The noise term lies between -250 and 250.\<close>

lemma randomVariation_range:
  assumes "0 \<le> r" and "r < 1"
  shows "\<exists>v. dbl_mul (dbl_sub (Finite r) (Finite (1 / 2))) (Finite 500) = Finite v \<and> \<bar>v\<bar> \<le> 250"
proof -
  have "\<bar>r - 1 / 2\<bar> \<le> 1 / 2" using assms by linarith
  then obtain q where q: "fl (r - 1 / 2) = Finite q" "\<bar>q\<bar> \<le> 1 / 2"
    using fl_abs_le [of "r - 1 / 2" "1 / 2"] by auto
  have "\<bar>q * 500\<bar> \<le> 250" using q(2) by (simp add: abs_mult)
  then obtain v where "fl (q * 500) = Finite v" "\<bar>v\<bar> \<le> 250"
    using fl_abs_numeral [of "q * 500"] by force
  then show ?thesis using q(1) by simp
qed






lemma jitter_half: "fl (1 / 2 * (3602879701896397 / 2 ^ 55)) = Finite (3602879701896397 / 2 ^ 56)"
  by (rule fl_eval [where k = "- 5"]) (simp_all add: round_even_def power_int_minus)

lemma confidence_half:
  "fl (7656119366529843 / 2 ^ 53 + 3602879701896397 / 2 ^ 56) = Finite (8106479329266893 / 2 ^ 53)"
  by (rule fl_eval [where k = "- 1"]) (simp_all add: round_even_def power_int_minus)

lemma no_noise: "dbl_mul (dbl_sub (Finite (1 / 2)) (Finite (1 / 2))) (Finite 500) = Finite 0"
  by simp

lemma scenario_prediction:
  assumes "shd g = 1 / 2"
  shows "prediction (fst (handlePredictionSubmit d ''2'' ''3'' ''8000'' g)) = Finite 7150"
  unfolding prediction_eq assms no_noise by (simp add: parse_fields or_default_def)


lemma scenario_confidence:
  "dbl_add (fl (85 / 100)) (dbl_mul (Finite (1 / 2)) (fl (1 / 10))) =
     Finite (8106479329266893 / 2 ^ 53)"
  by (simp only: double_085 double_01 dbl_mul_Finite jitter_half dbl_add.simps confidence_half)

lemma scenario_zero_jitter:
  "dbl_add (fl (85 / 100)) (dbl_mul (Finite 0) (fl (1 / 10))) = Finite (7656119366529843 / 2 ^ 53)"
proof -
  have "fl (7656119366529843 / 2 ^ 53) = Finite (7656119366529843 / 2 ^ 53)"
    by (rule fl_eval [where k = "- 1"]) (simp_all add: round_even_def power_int_minus)
  then show ?thesis by (simp only: double_085 double_01 dbl_mul_Finite mult_zero_left fl_numeral dbl_add.simps add_0_right)
qed

text \<open>The upper bound rounds in doubles: \<open>5130 * 1.15\<close> is just below 5899.5, so the
  upper bound of the point estimate 5130 is 5899, where the product of the reals, 5899.5,
  would round to 5900.\<close>

lemma upper_bound_5130: "Math_round (dbl_mul (Finite 5130) (fl (115 / 100))) = Finite 5899"
proof -
  have "fl (5130 * (2589569785738035 / 2 ^ 51)) = Finite (6486568848064511 / 2 ^ 40)"
    by (rule fl_eval [where k = 12]) (simp_all add: round_even_def power_int_minus)
  then have "Math_round (dbl_mul (Finite 5130) (fl (115 / 100))) =
      Math_round (Finite (6486568848064511 / 2 ^ 40))"
    by (simp only: double_115 dbl_mul_Finite)
  then show ?thesis by simp
qed




text \<open>The three integer terms are added without rounding; only the last addition, of
  the noise, rounds, and it moves the rounded sum by at most one.\<close>

lemma exact_terms:
  fixes t s b :: int
  assumes "\<bar>t\<bar> \<le> 10000000000000" and "\<bar>s\<bar> \<le> 10000000000000" and "\<bar>b\<bar> \<le> 10000000000000"
  shows "dbl_add (dbl_add (Finite (of_int b)) (dbl_mul (Finite (of_int t)) (Finite (- 200))))
           (dbl_mul (Finite (of_int s)) (Finite (- 150))) =
         Finite (of_int (b + t * (- 200) + s * (- 150)))"
proof -
  have "\<bar>t * (- 200)\<bar> < 2 ^ 53" using assms(1) by (simp add: abs_mult)
  then have "fl (of_int (t * (- 200))) = Finite (of_int (t * (- 200)))" by (rule fl_int)
  then have t: "dbl_mul (Finite (of_int t)) (Finite (- 200)) = Finite (of_int (t * (- 200)))"
    by simp
  have "\<bar>s * (- 150)\<bar> < 2 ^ 53" using assms(2) by (simp add: abs_mult)
  then have "fl (of_int (s * (- 150))) = Finite (of_int (s * (- 150)))" by (rule fl_int)
  then have s: "dbl_mul (Finite (of_int s)) (Finite (- 150)) = Finite (of_int (s * (- 150)))"
    by simp
  have "\<bar>b + t * (- 200)\<bar> < 2 ^ 53" using assms(1,3) by simp
  then have "fl (of_int (b + t * (- 200))) = Finite (of_int (b + t * (- 200)))" by (rule fl_int)
  then have bt: "dbl_add (Finite (of_int b)) (Finite (of_int (t * (- 200)))) =
      Finite (of_int (b + t * (- 200)))"
    by simp
  have "\<bar>b + t * (- 200) + s * (- 150)\<bar> < 2 ^ 53" using assms by simp
  then have "fl (of_int (b + t * (- 200) + s * (- 150))) =
      Finite (of_int (b + t * (- 200) + s * (- 150)))" by (rule fl_int)
  then have "dbl_add (Finite (of_int (b + t * (- 200)))) (Finite (of_int (s * (- 150)))) =
      Finite (of_int (b + t * (- 200) + s * (- 150)))"
    by simp
  then show ?thesis by (simp only: t s bt)
qed

lemma round_after_fl:
  fixes N :: int
  assumes "\<bar>N\<bar> \<le> 3510000000000000" and "\<bar>v\<bar> \<le> 250"
  shows "\<exists>y. fl (of_int N + v) = Finite y \<and>
             (\<lfloor>y + 1 / 2\<rfloor> = \<lfloor>of_int N + v + 1 / 2\<rfloor> \<or>
              \<lfloor>y + 1 / 2\<rfloor> = \<lfloor>of_int N + v + 1 / 2\<rfloor> + 1)"
proof -
  define M where "M = \<lfloor>of_int N + v + 1 / 2\<rfloor>"
  have M: "of_int M \<le> of_int N + v + 1 / 2" "of_int N + v + 1 / 2 < of_int M + 1"
    unfolding M_def by linarith+
  have rN: "\<bar>real_of_int N\<bar> \<le> 3510000000000000"
    using assms(1) by (metis of_int_abs of_int_le_iff of_int_numeral)
  have "\<bar>real_of_int M\<bar> \<le> 3510000000000252" using M rN assms(2) by linarith
  then have aM: "\<bar>M\<bar> \<le> 3510000000000252"
    by (metis of_int_abs of_int_le_iff of_int_numeral)
  have lo: "fl_real (of_int (2 * M - 1) / 2 ^ 1) = of_int (2 * M - 1) / 2 ^ 1"
    by (rule fl_real_dyadic) (use aM in simp_all)
  have hi: "fl_real (of_int (2 * M + 1) / 2 ^ 1) = of_int (2 * M + 1) / 2 ^ 1"
    by (rule fl_real_dyadic) (use aM in simp_all)
  have e: "of_int (2 * M - 1) / 2 ^ 1 = real_of_int M - 1 / 2"
    "of_int (2 * M + 1) / 2 ^ 1 = real_of_int M + 1 / 2" by simp_all
  have "real_of_int M - 1 / 2 \<le> of_int N + v" "of_int N + v \<le> real_of_int M + 1 / 2"
    using M by simp_all
  moreover have "- (2 ^ 60) \<le> real_of_int M - 1 / 2" "real_of_int M + 1 / 2 \<le> 2 ^ 60"
    using \<open>\<bar>real_of_int M\<bar> \<le> 3510000000000252\<close> by simp_all
  ultimately obtain y where y: "fl (of_int N + v) = Finite y" "real_of_int M - 1 / 2 \<le> y"
      "y \<le> real_of_int M + 1 / 2"
    using fl_between [of "real_of_int M - 1 / 2" "of_int N + v" "real_of_int M + 1 / 2"]
      lo hi unfolding e by blast
  have "M \<le> \<lfloor>y + 1 / 2\<rfloor>" using y(2) by (simp add: le_floor_iff)
  moreover have "\<lfloor>y + 1 / 2\<rfloor> \<le> M + 1" using y(3) by (simp add: floor_le_iff)
  ultimately have "\<lfloor>y + 1 / 2\<rfloor> = M \<or> \<lfloor>y + 1 / 2\<rfloor> = M + 1" by linarith
  then show ?thesis using y(1) unfolding M_def by blast
qed

lemma max_step:
  fixes A M :: int
  assumes "A = M \<or> A = M + 1"
  shows "max 0 (real_of_int A) = max 0 (real_of_int M) \<or>
         max 0 (real_of_int A) = max 0 (real_of_int M) + 1"
  using assms by (auto simp: max_def)

text \<open>
  C4, as the script computes it. Let the handler read the three numeric fields as the
  integers \<open>t\<close> (active therapies), \<open>s\<close> (side-effect intensity) and \<open>b\<close> (recent
  baseline), the defaults 0, 0 and 8000 included, each of magnitude at most \<open>10^13\<close>,
  and let the first draw lie in \<open>[0, 1)\<close>. Then the noise
  \<open>(Math.random() - 0.5) * 500\<close> is a finite double, the point estimate is
  \<open>Math.max(0, Math.round(N + noise))\<close> with \<open>N = b + t * (-200) + s * (-150)\<close> exact
  and one rounding in the addition of the noise, and it is the real-number value
  \<open>max(0, round(b + t * (-200) + s * (-150) + noise))\<close> of the specification or that
  value plus one.
\<close>

theorem C4_point_estimate:
  fixes t s b :: int
  assumes "or_default (parseInt tf) (Finite 0) = Finite (of_int t)"
    and "or_default (parseInt sf) (Finite 0) = Finite (of_int s)"
    and "or_default (parseInt bf) (Finite 8000) = Finite (of_int b)"
    and "\<bar>t\<bar> \<le> 10 ^ 13" and "\<bar>s\<bar> \<le> 10 ^ 13" and "\<bar>b\<bar> \<le> 10 ^ 13"
    and "0 \<le> shd g" and "shd g < 1"
  shows "\<exists>noise.
           dbl_mul (dbl_sub (Finite (shd g)) (Finite (1 / 2))) (Finite 500) = Finite noise \<and>
           prediction (fst (handlePredictionSubmit d tf sf bf g)) =
             Math_max (Finite 0)
               (Math_round (dbl_add (Finite (of_int (b + t * (- 200) + s * (- 150)))) (Finite noise))) \<and>
           (prediction (fst (handlePredictionSubmit d tf sf bf g)) =
              Finite (spec_point (of_int b) (of_int t) (of_int s) noise) \<or>
            prediction (fst (handlePredictionSubmit d tf sf bf g)) =
              Finite (spec_point (of_int b) (of_int t) (of_int s) noise + 1))"
proof -
  let ?N = "b + t * (- 200) + s * (- 150)"
  have bnd: "\<bar>t\<bar> \<le> 10000000000000" "\<bar>s\<bar> \<le> 10000000000000" "\<bar>b\<bar> \<le> 10000000000000"
    using assms(4,5,6) by simp_all
  obtain v where v: "dbl_mul (dbl_sub (Finite (shd g)) (Finite (1 / 2))) (Finite 500) = Finite v"
      "\<bar>v\<bar> \<le> 250"
    using randomVariation_range [OF assms(7,8)] by blast
  have p: "prediction (fst (handlePredictionSubmit d tf sf bf g)) =
      Math_max (Finite 0) (Math_round (dbl_add (Finite (of_int ?N)) (Finite v)))"
    unfolding prediction_eq assms(1,2,3) v(1) exact_terms [OF bnd] ..
  have "\<bar>?N\<bar> \<le> 3510000000000000" using bnd by linarith
  from round_after_fl [OF this v(2)]
  obtain y where y: "fl (of_int ?N + v) = Finite y"
      "\<lfloor>y + 1 / 2\<rfloor> = \<lfloor>of_int ?N + v + 1 / 2\<rfloor> \<or> \<lfloor>y + 1 / 2\<rfloor> = \<lfloor>of_int ?N + v + 1 / 2\<rfloor> + 1"
    by blast
  have q: "prediction (fst (handlePredictionSubmit d tf sf bf g)) = Finite (max 0 (of_int \<lfloor>y + 1 / 2\<rfloor>))"
  proof -
    have "dbl_add (Finite (of_int ?N)) (Finite v) = Finite y"
      using y(1) by (simp only: dbl_add.simps)
    then show ?thesis unfolding p by simp
  qed
  have sp: "spec_point (of_int b) (of_int t) (of_int s) v = max 0 (of_int \<lfloor>of_int ?N + v + 1 / 2\<rfloor>)"
    by (simp add: spec_point_def)
  have "max 0 (real_of_int \<lfloor>y + 1 / 2\<rfloor>) = spec_point (of_int b) (of_int t) (of_int s) v \<or>
        max 0 (real_of_int \<lfloor>y + 1 / 2\<rfloor>) = spec_point (of_int b) (of_int t) (of_int s) v + 1"
    unfolding sp using y(2) by (rule max_step)
  then show ?thesis using v(1) p q by auto
qed

text \<open>The scenario of the specification: 2 therapies, intensity 3, baseline 8000 and
  noise 0 (the draw \<open>1/2\<close>) give 7150.\<close>

theorem C4_point_estimate_witness:
  "or_default (parseInt ''2'') (Finite 0) = Finite (of_int 2) \<and>
   or_default (parseInt ''3'') (Finite 0) = Finite (of_int 3) \<and>
   or_default (parseInt ''8000'') (Finite 8000) = Finite (of_int 8000) \<and>
   \<bar>2 :: int\<bar> \<le> 10 ^ 13 \<and> \<bar>3 :: int\<bar> \<le> 10 ^ 13 \<and> \<bar>8000 :: int\<bar> \<le> 10 ^ 13 \<and>
   0 \<le> shd (sconst (1 / 2 :: real)) \<and> shd (sconst (1 / 2 :: real)) < 1 \<and>
   dbl_mul (dbl_sub (Finite (shd (sconst (1 / 2)))) (Finite (1 / 2))) (Finite 500) = Finite 0 \<and>
   prediction (fst (handlePredictionSubmit ''2026-01-01'' ''2'' ''3'' ''8000'' (sconst (1 / 2)))) =
     Finite 7150 \<and>
   spec_point 8000 2 3 0 = 7150"
proof -
  have h: "or_default (parseInt ''2'') (Finite 0) = Finite (of_int 2)"
    "or_default (parseInt ''3'') (Finite 0) = Finite (of_int 3)"
    "or_default (parseInt ''8000'') (Finite 8000) = Finite (of_int 8000)"
    by (simp_all add: parse_fields or_default_def)
  have m: "\<bar>2 :: int\<bar> \<le> 10 ^ 13" "\<bar>3 :: int\<bar> \<le> 10 ^ 13" "\<bar>8000 :: int\<bar> \<le> 10 ^ 13"
    by simp_all
  have r: "0 \<le> shd (sconst (1 / 2 :: real))" "shd (sconst (1 / 2 :: real)) < 1" by simp_all
  have z: "dbl_mul (dbl_sub (Finite (shd (sconst (1 / 2)))) (Finite (1 / 2))) (Finite 500) = Finite 0"
    by simp
  obtain noise where n: "Finite 0 = Finite noise"
    and p: "prediction (fst (handlePredictionSubmit ''2026-01-01'' ''2'' ''3'' ''8000'' (sconst (1 / 2)))) =
      Math_max (Finite 0)
        (Math_round (dbl_add (Finite (of_int (8000 + 2 * (- 200) + 3 * (- 150)))) (Finite noise)))"
    using C4_point_estimate [OF h m r, of "''2026-01-01''"] unfolding z by blast
  have "noise = 0" using n by simp
  then have "prediction (fst (handlePredictionSubmit ''2026-01-01'' ''2'' ''3'' ''8000'' (sconst (1 / 2)))) =
      Finite 7150"
    unfolding p by simp
  moreover have "spec_point 8000 2 3 0 = 7150" by (simp add: spec_point_def)
  ultimately show ?thesis using h m r z by blast
qed

text \<open>The baseline of a request is a real number, but the script reads the field with
  \<open>parseInt\<close>: of the baseline 8000.7 it keeps 8000. With no therapy, no side effect
  and noise 0 the point estimate is 8000, where the formula on the baseline 8000.7
  gives 8001.\<close>

theorem C4_fractional_baseline_counterexample:
  "parseInt ''8000.7'' = Finite 8000 \<and>
   dbl_mul (dbl_sub (Finite (shd (sconst (1 / 2)))) (Finite (1 / 2))) (Finite 500) = Finite 0 \<and>
   prediction (fst (handlePredictionSubmit ''2026-01-01'' ''0'' ''0'' ''8000.7'' (sconst (1 / 2)))) =
     Finite 8000 \<and>
   spec_point (80007 / 10) 0 0 0 = 8001"
proof -
  have "prediction (fst (handlePredictionSubmit ''2026-01-01'' ''0'' ''0'' ''8000.7'' (sconst (1 / 2)))) =
      Finite 8000"
    unfolding prediction_eq by (simp add: parse_fields or_default_def)
  moreover have "spec_point (80007 / 10) 0 0 0 = 8001" by (simp add: spec_point_def)
  ultimately show ?thesis by (simp add: parse_fields)
qed

text \<open>The last addition does round: with the baseline 8000, no therapy, no side effect
  and the draw \<open>0.5 + 9007199254740 * 2^-53\<close> the noise is just below one half, the
  sum of the doubles is the tie 8000.5 and the point estimate is 8001, while the sum of
  the reals rounds to 8000.\<close>

lemma last_addition_rounds:
  "dbl_mul (dbl_sub (Finite (1128151706656309 / 2 ^ 51)) (Finite (1 / 2))) (Finite 500) =
     Finite (4503599627370000 / 2 ^ 53) \<and>
   prediction (fst (handlePredictionSubmit ''2026-01-01'' ''0'' ''0'' ''8000''
                      (1128151706656309 / 2 ^ 51 ## sconst 0))) = Finite 8001 \<and>
   spec_point 8000 0 0 (4503599627370000 / 2 ^ 53) = 8000"
proof -
  have a: "fl (1128151706656309 / 2 ^ 51 - 1 / 2) = Finite (9007199254740 / 2 ^ 53)"
    by (rule fl_eval [where k = "- 10"]) (simp_all add: round_even_def power_int_minus)
  have b: "fl (9007199254740 / 2 ^ 53 * 500) = Finite (4503599627370000 / 2 ^ 53)"
    by (rule fl_eval [where k = "- 2"]) (simp_all add: round_even_def power_int_minus)
  have c: "fl (8000 + 4503599627370000 / 2 ^ 53) = Finite (16001 / 2)"
    by (rule fl_eval [where k = 12]) (simp_all add: round_even_def power_int_minus)
  have n: "dbl_mul (dbl_sub (Finite (1128151706656309 / 2 ^ 51)) (Finite (1 / 2))) (Finite 500) =
      Finite (4503599627370000 / 2 ^ 53)"
    by (simp only: dbl_sub_Finite a dbl_mul_Finite b)
  have "prediction (fst (handlePredictionSubmit ''2026-01-01'' ''0'' ''0'' ''8000''
                      (1128151706656309 / 2 ^ 51 ## sconst 0))) =
        Math_max (Finite 0) (Math_round (dbl_add (Finite 8000) (Finite (4503599627370000 / 2 ^ 53))))"
    unfolding prediction_eq stream.sel n by (simp add: parse_fields or_default_def)
  also have "\<dots> = Math_max (Finite 0) (Math_round (Finite (16001 / 2)))"
    by (simp only: dbl_add.simps c)
  also have "\<dots> = Finite 8001" by simp
  finally have p: "prediction (fst (handlePredictionSubmit ''2026-01-01'' ''0'' ''0'' ''8000''
                      (1128151706656309 / 2 ^ 51 ## sconst 0))) = Finite 8001" .
  have "spec_point 8000 0 0 (4503599627370000 / 2 ^ 53) = 8000" by (simp add: spec_point_def)
  then show ?thesis using n p by blast
qed

text \<open>
  C5, as the script computes it. The handler draws twice from the random source: the
  first draw is the noise, the second the confidence jitter. Two runs on the same fields
  whose sources agree on the first draw agree on the point estimate and on both bounds;
  two runs whose sources agree on the first two draws return the same result object. The
  handler consumes exactly two draws.
\<close>

theorem C5_deterministic:
  "(shd g = shd g' \<longrightarrow>
      prediction (fst (handlePredictionSubmit d tf sf bf g)) = prediction (fst (handlePredictionSubmit d tf sf bf g')) \<and>
      lowerBound (fst (handlePredictionSubmit d tf sf bf g)) = lowerBound (fst (handlePredictionSubmit d tf sf bf g')) \<and>
      upperBound (fst (handlePredictionSubmit d tf sf bf g)) = upperBound (fst (handlePredictionSubmit d tf sf bf g'))) \<and>
   (stake 2 g = stake 2 g' \<longrightarrow>
      fst (handlePredictionSubmit d tf sf bf g) = fst (handlePredictionSubmit d tf sf bf g')) \<and>
   snd (handlePredictionSubmit d tf sf bf g) = sdrop 2 g"
  by (cases g; cases g'; cases "stl g"; cases "stl g'")
     (simp add: handlePredictionSubmit_def Math_random_def Let_def numeral_2_eq_2 del: dbl_sub_Finite)

theorem C5_deterministic_witness:
  "shd (1/2 ## 0 ## sconst 0) = shd (1/2 ## 1/2 ## sconst (0::real)) \<and>
   prediction (fst (handlePredictionSubmit ''2026-01-01'' ''2'' ''3'' ''8000'' (1/2 ## 0 ## sconst 0))) =
   prediction (fst (handlePredictionSubmit ''2026-01-01'' ''2'' ''3'' ''8000'' (1/2 ## 1/2 ## sconst 0))) \<and>
   stake 2 (1/2 ## 1/4 ## sconst 0) = stake 2 (1/2 ## 1/4 ## sconst (1::real)) \<and>
   fst (handlePredictionSubmit ''2026-01-01'' ''2'' ''3'' ''8000'' (1/2 ## 1/4 ## sconst 0)) =
   fst (handlePredictionSubmit ''2026-01-01'' ''2'' ''3'' ''8000'' (1/2 ## 1/4 ## sconst 1))"
  using C5_deterministic [of "1/2 ## 0 ## sconst 0" "1/2 ## 1/2 ## sconst 0" "''2026-01-01''" "''2''" "''3''" "''8000''"]
        C5_deterministic [of "1/2 ## 1/4 ## sconst 0" "1/2 ## 1/4 ## sconst 1" "''2026-01-01''" "''2''" "''3''" "''8000''"]
  by (simp add: numeral_2_eq_2)

text \<open>The same fields and the same noise draw \<open>1/2\<close> (noise 0), but a different second
  draw: the confidence is the double \<open>0.85\<close> in one run and the double \<open>0.9\<close> in the
  other, so the two result objects differ.\<close>

theorem C5_confidence_counterexample:
  "shd (1/2 ## 0 ## sconst 0) = shd (1/2 ## 1/2 ## sconst (0::real)) \<and>
   confidence (fst (handlePredictionSubmit ''2026-01-01'' ''2'' ''3'' ''8000'' (1/2 ## 0 ## sconst 0))) =
     Finite (7656119366529843 / 2 ^ 53) \<and>
   confidence (fst (handlePredictionSubmit ''2026-01-01'' ''2'' ''3'' ''8000'' (1/2 ## 1/2 ## sconst 0))) =
     Finite (8106479329266893 / 2 ^ 53) \<and>
   fst (handlePredictionSubmit ''2026-01-01'' ''2'' ''3'' ''8000'' (1/2 ## 0 ## sconst 0)) \<noteq>
   fst (handlePredictionSubmit ''2026-01-01'' ''2'' ''3'' ''8000'' (1/2 ## 1/2 ## sconst 0))"
proof -
  let ?a = "fst (handlePredictionSubmit ''2026-01-01'' ''2'' ''3'' ''8000'' (1/2 ## 0 ## sconst 0))"
  let ?b = "fst (handlePredictionSubmit ''2026-01-01'' ''2'' ''3'' ''8000'' (1/2 ## 1/2 ## sconst 0))"
  have a: "confidence ?a = Finite (7656119366529843 / 2 ^ 53)"
    unfolding confidence_eq stream.sel by (rule scenario_zero_jitter)
  have b: "confidence ?b = Finite (8106479329266893 / 2 ^ 53)"
    unfolding confidence_eq stream.sel by (rule scenario_confidence)
  have "confidence ?a \<noteq> confidence ?b" unfolding a b by simp
  then have "?a \<noteq> ?b" by metis
  then show ?thesis using a b by simp
qed

text \<open>
  C10. A baseline field that \<open>parseInt\<close> reads as \<open>NaN\<close> (not numeric) or as \<open>0\<close> is
  replaced by 8000: the handler returns what it returns on the field \<open>8000\<close>, for the
  same other fields and the same random source.
\<close>

theorem C10_baseline_fallback:
  assumes "parseInt bf = Not_a_Number \<or> parseInt bf = Finite 0"
  shows "handlePredictionSubmit d tf sf bf g = handlePredictionSubmit d tf sf ''8000'' g"
proof -
  have "parseInt ''8000'' = Finite 8000" by (rule parse_fields)
  then have "or_default (parseInt bf) (Finite 8000) = or_default (parseInt ''8000'') (Finite 8000)"
    using assms by (auto simp: or_default_def)
  then show ?thesis by (simp add: handlePredictionSubmit_def)
qed

text \<open>The fields \<open>0\<close> and \<open>abc\<close> give the result of the field \<open>8000\<close>: with 2
  therapies, intensity 3 and noise 0 the point estimate is 7150.\<close>

theorem C10_baseline_fallback_witness:
  "parseInt ''0'' = Finite 0 \<and> parseInt ''abc'' = Not_a_Number \<and> parseInt [] = Not_a_Number \<and>
   handlePredictionSubmit ''2026-01-01'' ''2'' ''3'' ''0'' (sconst (1/2)) =
     handlePredictionSubmit ''2026-01-01'' ''2'' ''3'' ''8000'' (sconst (1/2)) \<and>
   handlePredictionSubmit ''2026-01-01'' ''2'' ''3'' ''abc'' (sconst (1/2)) =
     handlePredictionSubmit ''2026-01-01'' ''2'' ''3'' ''8000'' (sconst (1/2)) \<and>
   prediction (fst (handlePredictionSubmit ''2026-01-01'' ''2'' ''3'' ''0'' (sconst (1/2)))) = Finite 7150"
proof -
  have e: "handlePredictionSubmit ''2026-01-01'' ''2'' ''3'' ''0'' (sconst (1/2)) =
      handlePredictionSubmit ''2026-01-01'' ''2'' ''3'' ''8000'' (sconst (1/2))"
    "handlePredictionSubmit ''2026-01-01'' ''2'' ''3'' ''abc'' (sconst (1/2)) =
      handlePredictionSubmit ''2026-01-01'' ''2'' ''3'' ''8000'' (sconst (1/2))"
    using C10_baseline_fallback [of "''0''" "''2026-01-01''" "''2''" "''3''" "sconst (1/2)"]
          C10_baseline_fallback [of "''abc''" "''2026-01-01''" "''2''" "''3''" "sconst (1/2)"]
    by (simp_all add: parse_fields)
  have "prediction (fst (handlePredictionSubmit ''2026-01-01'' ''2'' ''3'' ''0'' (sconst (1/2)))) = Finite 7150"
    unfolding e by (rule scenario_prediction) simp
  then show ?thesis using e by (simp add: parse_fields)
qed

subsection \<open>The error histogram\<close>

lemma histogram_length: "length (histogram edges errs) = length edges - 1"
  by (simp add: histogram_def)

lemma histogram_nth:
  assumes "k < length edges - 1"
  shows "histogram edges errs ! k = length (filter (in_bin (edges ! k) (edges ! (k + 1))) errs)"
  using assms by (simp add: histogram_def nth_enumerate_eq nth_butlast in_bin_def [abs_def])

lemma histogram_eq_map:
  "histogram edges errs =
     map (\<lambda>k. length (filter (in_bin (edges ! k) (edges ! (k + 1))) errs)) [0..<length edges - 1]"
  by (rule nth_equalityI) (simp_all add: histogram_length histogram_nth)

lemma in_bin_split:
  assumes "a \<le> b" and "b \<le> c"
  shows "length (filter (in_bin a c) errs) =
         length (filter (in_bin a b) errs) + length (filter (in_bin b c) errs)"
proof (induction errs)
  case Nil
  then show ?case by simp
next
  case (Cons e errs)
  show ?case
  proof (cases e)
    case NaN
    with Cons show ?thesis by (simp add: in_bin_def)
  next
    case (Num v)
    with Cons assms show ?thesis by (auto simp: in_bin_def)
  qed
qed

lemma in_bin_empty: "length (filter (in_bin a a) errs) = 0"
proof -
  have "\<not> in_bin a a e" for e by (cases e) (simp_all add: in_bin_def)
  then show ?thesis by simp
qed

lemma sum_adjacent_bins:
  assumes "sorted (a # es)"
  shows "(\<Sum>k<length es. length (filter (in_bin ((a # es) ! k) ((a # es) ! Suc k)) errs)) =
         length (filter (in_bin a (last (a # es))) errs)"
  using assms
proof (induction es arbitrary: a)
  case Nil
  then show ?case by (simp add: in_bin_empty)
next
  case (Cons b es)
  have ab: "a \<le> b" using Cons.prems by simp
  have bl: "b \<le> last (b # es)" using Cons.prems
    by (metis last_in_set list.distinct(1) set_ConsD sorted_simps(2) order_refl)
  have sb: "sorted (b # es)" using Cons.prems by simp
  have "(\<Sum>k<length (b # es). length (filter (in_bin ((a # b # es) ! k) ((a # b # es) ! Suc k)) errs)) =
        length (filter (in_bin a b) errs) +
        (\<Sum>k<length es. length (filter (in_bin ((b # es) ! k) ((b # es) ! Suc k)) errs))"
    by (simp add: sum.lessThan_Suc_shift del: sum.lessThan_Suc)
  also have "\<dots> = length (filter (in_bin a b) errs) + length (filter (in_bin b (last (b # es))) errs)"
    using Cons.IH [OF sb] by simp
  also have "\<dots> = length (filter (in_bin a (last (b # es))) errs)"
    using in_bin_split [OF ab bl] by simp
  finally show ?case by simp
qed

lemma histogram_sum:
  assumes "sorted edges" and "edges \<noteq> []"
  shows "sum_list (histogram edges errs) = length (filter (in_bin (hd edges) (last edges)) errs)"
proof -
  obtain a es where e: "edges = a # es" using assms(2) by (cases edges) auto
  have "sum_list (histogram edges errs) =
        (\<Sum>k<length es. length (filter (in_bin ((a # es) ! k) ((a # es) ! Suc k)) errs))"
    unfolding histogram_eq_map e
    by (simp add: interv_sum_list_conv_sum_set_nat atLeast0LessThan)
  then show ?thesis using sum_adjacent_bins [of a es errs] assms(1) e by simp
qed

lemma above_last_in_no_bin:
  assumes "sorted edges" and "k < length edges - 1" and "js_ge e (last edges)"
  shows "\<not> in_bin (edges ! k) (edges ! (k + 1)) e"
proof -
  have ne: "edges \<noteq> []" using assms(2) by auto
  have "edges ! (k + 1) \<le> edges ! (length edges - 1)"
    using assms(1,2) by (intro sorted_nth_mono) simp_all
  then have "edges ! (k + 1) \<le> last edges"
    using ne by (simp add: last_conv_nth)
  then show ?thesis using assms(3) by (cases e) (auto simp: in_bin_def)
qed

text \<open>The absolute residuals: one for each actual value, the \<open>i\<close>-th being
  \<open>|actual[i] - predicted[i]|\<close>; a count over them is a count over the indices of
  \<open>actual\<close>.\<close>

lemma errors_length: "length (errors actual predicted) = length actual"
  by (simp add: errors_def)

lemma errors_nth:
  assumes "i < length actual"
  shows "errors actual predicted ! i = Math_abs (js_sub (actual ! i) (js_index predicted i))"
  using assms by (simp add: errors_def nth_enumerate_eq)

lemma count_errors:
  "length (filter P (errors actual predicted)) =
     card {i. i < length actual \<and> P (Math_abs (js_sub (actual ! i) (js_index predicted i)))}"
proof -
  have "{i. i < length (errors actual predicted) \<and> P (errors actual predicted ! i)} =
        {i. i < length actual \<and> P (Math_abs (js_sub (actual ! i) (js_index predicted i)))}"
    by (auto simp: errors_length errors_nth)
  then show ?thesis by (simp only: length_filter_conv_card)
qed

text \<open>
  C6. The absolute residuals are \<open>|actual[i] - predicted[i]|\<close>, one for each index of
  \<open>actual\<close>. Their histogram has one count per adjacent pair of edges,
  \<open>length edges - 1\<close> of them; count \<open>k\<close> is the number of indices \<open>i\<close> with
  \<open>edges[k] \<le> |actual[i] - predicted[i]| < edges[k+1]\<close>. For strictly ascending edges,
  at least two of them, the counts add up to the number of indices whose absolute
  residual lies in \<open>[edges[0], last edge)\<close>, and an absolute residual at or above the
  last edge lies in no bin.
\<close>

theorem C6_histogram:
  "length (errors actual predicted) = length actual \<and>
   (\<forall>i < length actual.
      errors actual predicted ! i = Math_abs (js_sub (actual ! i) (js_index predicted i))) \<and>
   length (histogram edges (errors actual predicted)) = length edges - 1 \<and>
   (\<forall>k < length edges - 1.
      histogram edges (errors actual predicted) ! k =
        card {i. i < length actual \<and>
                 in_bin (edges ! k) (edges ! (k + 1))
                   (Math_abs (js_sub (actual ! i) (js_index predicted i)))}) \<and>
   (sorted_wrt (<) edges \<and> 2 \<le> length edges \<longrightarrow>
      sum_list (histogram edges (errors actual predicted)) =
        card {i. i < length actual \<and>
                 in_bin (hd edges) (last edges)
                   (Math_abs (js_sub (actual ! i) (js_index predicted i)))} \<and>
      (\<forall>i < length actual.
         js_ge (Math_abs (js_sub (actual ! i) (js_index predicted i))) (last edges) \<longrightarrow>
         (\<forall>k < length edges - 1.
            \<not> in_bin (edges ! k) (edges ! (k + 1))
                (Math_abs (js_sub (actual ! i) (js_index predicted i))))))"
proof (intro conjI allI impI)
  show "length (errors actual predicted) = length actual" by (rule errors_length)
  show "length (histogram edges (errors actual predicted)) = length edges - 1"
    by (rule histogram_length)
next
  fix i assume "i < length actual"
  then show "errors actual predicted ! i = Math_abs (js_sub (actual ! i) (js_index predicted i))"
    by (rule errors_nth)
next
  fix k assume "k < length edges - 1"
  then show "histogram edges (errors actual predicted) ! k =
      card {i. i < length actual \<and>
               in_bin (edges ! k) (edges ! (k + 1))
                 (Math_abs (js_sub (actual ! i) (js_index predicted i)))}"
    by (simp only: histogram_nth count_errors)
next
  assume a: "sorted_wrt (<) edges \<and> 2 \<le> length edges"
  then have s: "sorted edges" by (simp add: strict_sorted_imp_sorted)
  from a have ne: "edges \<noteq> []" by auto
  show "sum_list (histogram edges (errors actual predicted)) =
      card {i. i < length actual \<and>
               in_bin (hd edges) (last edges)
                 (Math_abs (js_sub (actual ! i) (js_index predicted i)))}"
    by (simp only: histogram_sum [OF s ne] count_errors)
  fix i k
  assume "js_ge (Math_abs (js_sub (actual ! i) (js_index predicted i))) (last edges)"
    and "k < length edges - 1"
  then show "\<not> in_bin (edges ! k) (edges ! (k + 1))
                (Math_abs (js_sub (actual ! i) (js_index predicted i)))"
    using above_last_in_no_bin [OF s] by blast
qed

text \<open>The script's own edges \<open>0, 500, ..., 4000\<close> on four actual values, the last
  without a prediction: the absolute residuals are 10, 500, 4000 and \<open>NaN\<close>; two of
  them lie in \<open>[0, 4000)\<close>, and 4000, at the last edge, is not counted in the last
  bin.\<close>

theorem C6_histogram_witness:
  "sorted_wrt (<) bins \<and> 2 \<le> length bins \<and>
   errors [Num 100, Num 600, Num 5000, Num 7] [Num 90, Num 1100, Num 1000] =
     [Num 10, Num 500, Num 4000, NaN] \<and>
   histogram bins (errors [Num 100, Num 600, Num 5000, Num 7] [Num 90, Num 1100, Num 1000]) =
     [1, 1, 0, 0, 0, 0, 0, 0] \<and>
   length (histogram bins (errors [Num 100, Num 600, Num 5000, Num 7] [Num 90, Num 1100, Num 1000])) =
     length bins - 1 \<and>
   card {i. i < length [Num 100, Num 600, Num 5000, Num 7] \<and>
            in_bin (hd bins) (last bins)
              (Math_abs (js_sub ([Num 100, Num 600, Num 5000, Num 7] ! i)
                                (js_index [Num 90, Num 1100, Num 1000] i)))} = 2 \<and>
   js_ge (Math_abs (js_sub ([Num 100, Num 600, Num 5000, Num 7] ! 2)
                           (js_index [Num 90, Num 1100, Num 1000] 2))) (last bins) \<and>
   \<not> in_bin (bins ! 7) (bins ! (7 + 1))
       (Math_abs (js_sub ([Num 100, Num 600, Num 5000, Num 7] ! 2)
                         (js_index [Num 90, Num 1100, Num 1000] 2)))"
proof -
  let ?a = "[Num 100, Num 600, Num 5000, Num 7]"
  let ?p = "[Num 90, Num 1100, Num 1000]"
  have b: "sorted_wrt (<) bins \<and> 2 \<le> length bins" by (simp add: bins_def)
  have e: "errors ?a ?p = [Num 10, Num 500, Num 4000, NaN]"
    by (simp add: errors_def js_index_def)
  have h: "histogram bins (errors ?a ?p) = [1, 1, 0, 0, 0, 0, 0, 0]"
    unfolding e by (simp add: bins_def histogram_def)
  have g: "js_ge (Math_abs (js_sub (?a ! 2) (js_index ?p 2))) (last bins)"
    by (simp add: js_index_def bins_def)
  have i2: "2 < length ?a" and k7: "7 < length bins - 1" by (simp_all add: bins_def)
  have l: "length (histogram bins (errors ?a ?p)) = length bins - 1"
    and c: "sum_list (histogram bins (errors ?a ?p)) =
      card {i. i < length ?a \<and> in_bin (hd bins) (last bins)
                (Math_abs (js_sub (?a ! i) (js_index ?p i)))}"
    and n: "\<not> in_bin (bins ! 7) (bins ! (7 + 1)) (Math_abs (js_sub (?a ! 2) (js_index ?p 2)))"
    using C6_histogram [of ?a ?p bins] b g i2 k7 by blast+
  have c2: "card {i. i < length ?a \<and> in_bin (hd bins) (last bins)
                (Math_abs (js_sub (?a ! i) (js_index ?p i)))} = 2"
    using c unfolding h by simp
  show ?thesis using b e h l c2 g n by blast
qed

subsection \<open>Waiting for the chart library\<close>

lemmas chart_eval = initializeCharts_def createForecastComparisonChart_def
  createFeatureImportanceChart_def createResidualPlot_def createErrorDistributionChart_def
  new_Chart_def

lemma initializeCharts_unavailable:
  "\<not> Chart_defined p (clock s) \<Longrightarrow>
   initializeCharts p s = s\<lparr>timers := timers s @ [clock s + 500]\<rparr>"
  by (simp add: initializeCharts_def)

lemma initializeCharts_available_timers:
  "Chart_defined p (clock s) \<Longrightarrow> timers (initializeCharts p s) = timers s"
  by (simp add: chart_eval)

lemma initializeCharts_available_clock:
  "clock (initializeCharts p s) = clock s"
  by (simp add: chart_eval)

lemma run_timers_idle: "timers s = [] \<Longrightarrow> run_timers p s = Some s"
  by (subst run_timers.simps) simp

lemma run_timers_fire:
  "timers s = t # ts \<Longrightarrow>
   run_timers p s = run_timers p (initializeCharts p (s\<lparr>clock := max (clock s) t, timers := ts\<rparr>))"
  by (subst run_timers.simps) simp

lemma poll_until_available:
  assumes "timers s = []"
    and "\<forall>j<n. \<not> Chart_defined p (clock s + 500 * j)"
    and "Chart_defined p (clock s + 500 * n)"
  shows "run_timers p (initializeCharts p s) =
         Some (initializeCharts p (s\<lparr>clock := clock s + 500 * n\<rparr>))"
  using assms
proof (induction n arbitrary: s)
  case 0
  then have "timers (initializeCharts p s) = []"
    by (simp add: initializeCharts_available_timers)
  then show ?case by (simp add: run_timers_idle)
next
  case (Suc n)
  let ?s' = "s\<lparr>clock := clock s + 500\<rparr>"
  from Suc.prems(2) have un: "\<not> Chart_defined p (clock s)" by fastforce
  have eq1: "initializeCharts p s = s\<lparr>timers := [clock s + 500]\<rparr>"
    using un Suc.prems(1) by (simp add: initializeCharts_unavailable)
  have eq2: "s\<lparr>timers := [clock s + 500]\<rparr>\<lparr>clock := max (clock (s\<lparr>timers := [clock s + 500]\<rparr>)) (clock s + 500),
               timers := []\<rparr> = ?s'"
    using Suc.prems(1) by (cases s) simp
  have "run_timers p (s\<lparr>timers := [clock s + 500]\<rparr>) =
        run_timers p (initializeCharts p (s\<lparr>timers := [clock s + 500]\<rparr>\<lparr>clock := max (clock (s\<lparr>timers := [clock s + 500]\<rparr>)) (clock s + 500),
               timers := []\<rparr>))"
    by (rule run_timers_fire) simp
  then have "run_timers p (initializeCharts p s) = run_timers p (initializeCharts p ?s')"
    unfolding eq1 eq2 .
  moreover have "run_timers p (initializeCharts p ?s') =
                 Some (initializeCharts p (?s'\<lparr>clock := clock ?s' + 500 * n\<rparr>))"
  proof (rule Suc.IH)
    show "timers ?s' = []" using Suc.prems(1) by simp
    show "\<forall>j<n. \<not> Chart_defined p (clock ?s' + 500 * j)"
    proof (intro allI impI)
      fix j assume "j < n"
      then have "Suc j < Suc n" by simp
      then have "\<not> Chart_defined p (clock s + 500 * Suc j)" using Suc.prems(2) by blast
      then show "\<not> Chart_defined p (clock ?s' + 500 * j)" by (simp add: algebra_simps)
    qed
    show "Chart_defined p (clock ?s' + 500 * n)"
      using Suc.prems(3) by (simp add: algebra_simps)
  qed
  ultimately show ?case by (simp add: algebra_simps)
qed

lemma run_timers_Some_idle:
  assumes "run_timers p s = Some y"
  shows "(\<forall>t. \<not> Chart_defined p t) \<longrightarrow> timers s = []"
proof (rule run_timers.raw_induct [where P = "\<lambda>p s y. (\<forall>t. \<not> Chart_defined p t) \<longrightarrow> timers s = []", OF _ assms])
  fix run :: "page \<Rightarrow> app_state \<Rightarrow> app_state option" and p s y
  assume IH: "\<And>p s y. run p s = Some y \<Longrightarrow> (\<forall>t. \<not> Chart_defined p t) \<longrightarrow> timers s = []"
    and step: "(case timers s of [] \<Rightarrow> Some s
      | t # ts \<Rightarrow> run p (initializeCharts p (s\<lparr>clock := max (clock s) t, timers := ts\<rparr>))) = Some y"
  show "(\<forall>t. \<not> Chart_defined p t) \<longrightarrow> timers s = []"
  proof
    assume never: "\<forall>t. \<not> Chart_defined p t"
    show "timers s = []"
    proof (cases "timers s")
      case Nil
      then show ?thesis .
    next
      case (Cons t ts)
      let ?s1 = "s\<lparr>clock := max (clock s) t, timers := ts\<rparr>"
      from step Cons have "run p (initializeCharts p ?s1) = Some y" by simp
      then have "timers (initializeCharts p ?s1) = []" using IH never by blast
      moreover have "timers (initializeCharts p ?s1) \<noteq> []"
        using never by (simp add: initializeCharts_def)
      ultimately show ?thesis by contradiction
    qed
  qed
qed

lemma poll_forever:
  assumes "\<forall>t. \<not> Chart_defined p t"
  shows "run_timers p (initializeCharts p s) = None"
proof (cases "run_timers p (initializeCharts p s)")
  case None
  then show ?thesis .
next
  case (Some y)
  then have "timers (initializeCharts p s) = []"
    using run_timers_Some_idle assms by blast
  moreover have "timers (initializeCharts p s) \<noteq> []"
    using assms by (simp add: initializeCharts_def)
  ultimately show ?thesis by contradiction
qed

text \<open>
  C8, as the script computes it. A call of \<open>initializeCharts\<close> that finds no chart
  library builds no chart and sets exactly one timer, 500 ms ahead. When the library is
  missing at the first \<open>n\<close> polls and there at the next, the polling ends after \<open>n\<close>
  retries, at time \<open>clock + 500 * n\<close>, with the charts built then. When the library
  never loads, the polling never ends.
\<close>

theorem C8_polling:
  "(\<not> Chart_defined p (clock s) \<longrightarrow>
      initializeCharts p s = s\<lparr>timers := timers s @ [clock s + 500]\<rparr> \<and>
      charts (initializeCharts p s) = charts s) \<and>
   (timers s = [] \<and> (\<forall>j<n. \<not> Chart_defined p (clock s + 500 * j)) \<and>
      Chart_defined p (clock s + 500 * n) \<longrightarrow>
      run_timers p (initializeCharts p s) =
        Some (initializeCharts p (s\<lparr>clock := clock s + 500 * n\<rparr>))) \<and>
   ((\<forall>t. \<not> Chart_defined p t) \<longrightarrow> run_timers p (initializeCharts p s) = None)"
  using poll_until_available [of s n p] poll_forever [of p s]
  by (simp add: initializeCharts_unavailable)

text \<open>On a first visit to the page whose library loads at 1500 ms: the first call sets
  the timer for 500 ms and builds nothing, and the polling ends at 1500 ms, after three
  retries. On the page whose library never loads it does not end.\<close>

theorem C8_polling_witness:
  "\<not> Chart_defined page_late (clock (APP_STATE None)) \<and>
   timers (initializeCharts page_late (APP_STATE None)) = [500] \<and>
   charts (initializeCharts page_late (APP_STATE None)) forecast = None \<and>
   run_timers page_late (initializeCharts page_late (APP_STATE None)) =
     Some (initializeCharts page_late ((APP_STATE None)\<lparr>clock := 1500\<rparr>)) \<and>
   run_timers page_never (initializeCharts page_never (APP_STATE None)) = None"
proof -
  have a: "\<not> Chart_defined page_late (clock (APP_STATE None))"
    by (simp add: page_late_def APP_STATE_def)
  have b: "timers (APP_STATE None) = [] \<and>
      (\<forall>j<3. \<not> Chart_defined page_late (clock (APP_STATE None) + 500 * j)) \<and>
      Chart_defined page_late (clock (APP_STATE None) + 500 * 3)"
    by (simp add: page_late_def APP_STATE_def)
  have c: "\<forall>t. \<not> Chart_defined page_never t"
    by (simp add: page_never_def)
  have d: "clock (APP_STATE None) + 500 * 3 = 1500" "timers (APP_STATE None) = []"
      "clock (APP_STATE None) = 0" "charts (APP_STATE None) forecast = None"
    by (simp_all add: APP_STATE_def)
  from C8_polling [of page_late "APP_STATE None" 3] a b
  have "initializeCharts page_late (APP_STATE None) =
          (APP_STATE None)\<lparr>timers := timers (APP_STATE None) @ [clock (APP_STATE None) + 500]\<rparr>"
    and "charts (initializeCharts page_late (APP_STATE None)) = charts (APP_STATE None)"
    and "run_timers page_late (initializeCharts page_late (APP_STATE None)) =
          Some (initializeCharts page_late ((APP_STATE None)\<lparr>clock := clock (APP_STATE None) + 500 * 3\<rparr>))"
    by blast+
  moreover from C8_polling [of page_never "APP_STATE None" 0] c
  have "run_timers page_never (initializeCharts page_never (APP_STATE None)) = None"
    by blast
  ultimately show ?thesis using a d by simp
qed

text \<open>The library never loads: the initialization does not terminate. The library
  loads at 1500 ms: the initialization retries three times, not once, and then builds
  the charts (the error-distribution chart is the fourth object built).\<close>

theorem C8_never_available_counterexample:
  "run_timers page_never (initializeCharts page_never (APP_STATE None)) = None \<and>
   map_option clock (run_timers page_late (initializeCharts page_late (APP_STATE None))) = Some 1500 \<and>
   map_option (\<lambda>s. map_option hid (charts s errorDist))
     (run_timers page_late (initializeCharts page_late (APP_STATE None))) = Some (Some 3)"
proof -
  have "run_timers page_never (initializeCharts page_never (APP_STATE None)) = None"
    by (rule poll_forever) (simp add: page_never_def)
  moreover have "run_timers page_late (initializeCharts page_late (APP_STATE None)) =
     Some (initializeCharts page_late ((APP_STATE None)\<lparr>clock := clock (APP_STATE None) + 500 * 3\<rparr>))"
    by (rule poll_until_available) (simp_all add: page_late_def APP_STATE_def)
  ultimately show ?thesis
    by (simp add: chart_eval page_late_def APP_STATE_def)
qed

subsection \<open>The theme toggle\<close>





















subsection \<open>Exporting the charts as images\<close>

lemma settle_Rasterized:
  "settle n (i, Rasterized now url) (u, c) =
     (if Suc c = n
      then (u\<lparr>downloads := downloads u @ image_files [(i, Rasterized now url)], loading := False,
              toasts := toasts u @ [(digits (Suc c) @ '' charts exported successfully!'', Success)]\<rparr>, Suc c)
      else (u\<lparr>downloads := downloads u @ image_files [(i, Rasterized now url)]\<rparr>, Suc c))"
  by (simp add: settle_def Let_def)

lemma settle_Rejected:
  "settle n (i, Rejected) (u, c) =
     (u\<lparr>loading := False,
         toasts := toasts u @ [(''Error exporting charts. Please try again.'', Error)]\<rparr>, c)"
  by (simp add: settle_def)

lemma fold_settle:
  "downloads (fst (fold (settle n) evs (u, c))) = downloads u @ image_files evs \<and>
   reported Error (fst (fold (settle n) evs (u, c))) =
     reported Error u + length (filter is_rejected evs) \<and>
   reported Success (fst (fold (settle n) evs (u, c))) =
     reported Success u +
       (if c < n \<and> n \<le> c + length (filter (\<lambda>ev. \<not> is_rejected ev) evs) then 1 else 0) \<and>
   snd (fold (settle n) evs (u, c)) = c + length (filter (\<lambda>ev. \<not> is_rejected ev) evs)"
proof (induction evs arbitrary: u c)
  case Nil
  then show ?case by simp
next
  case (Cons ev evs)
  obtain i r where ev: "ev = (i, r)" by (cases ev)
  show ?case
  proof (cases r)
    case (Rasterized now url)
    show ?thesis
      unfolding ev Rasterized fold_simps settle_Rasterized
      using Cons.IH by (auto simp: is_rejected_def reported_def)
  next
    case Rejected
    show ?thesis
      unfolding ev Rejected fold_simps settle_Rejected
      using Cons.IH by (auto simp: is_rejected_def reported_def)
  qed
qed

text \<open>
  C2, as the script computes it. With \<open>html2canvas\<close> loaded, whatever the settlements
  and their order: every rendered surface is downloaded, after the downloads there were
  before, whether or not a rejection came earlier; each rejected surface adds one error
  toast; and the success toast is shown once \<open>n\<close> surfaces have been rendered, not
  before, and never for an empty batch. Without \<open>html2canvas\<close> there is one error
  toast and no download.
\<close>

theorem C2_chart_export:
  "downloads (exportChartsAsImages True n settled u) = downloads u @ image_files settled \<and>
   reported Error (exportChartsAsImages True n settled u) =
     reported Error u + length (filter is_rejected settled) \<and>
   reported Success (exportChartsAsImages True n settled u) =
     reported Success u +
       (if 0 < n \<and> n \<le> length (filter (\<lambda>ev. \<not> is_rejected ev) settled) then 1 else 0) \<and>
   downloads (exportChartsAsImages False n settled u) = downloads u \<and>
   reported Error (exportChartsAsImages False n settled u) = reported Error u + 1"
  using fold_settle [of n settled "u\<lparr>loading := True,
                     toasts := toasts u @ [(''Exporting charts as images...'', Info)]\<rparr>" 0]
  by (simp add: exportChartsAsImages_def reported_def)

lemmas export_eval = exportChartsAsImages_def settle_def reported_def blank_ui_def Let_def
  digits.simps digit_char_def is_rejected_def

text \<open>Two canvases, the second rendered first: two downloads, one success toast, no
  error toast.\<close>

theorem C2_chart_export_witness:
  "downloads (exportChartsAsImages True 2 [(1, Rasterized 17 ''b''), (0, Rasterized 18 ''a'')] blank_ui) =
     [(''chart_2_17.png'', ''b''), (''chart_1_18.png'', ''a'')] \<and>
   reported Success (exportChartsAsImages True 2 [(1, Rasterized 17 ''b''), (0, Rasterized 18 ''a'')] blank_ui) = 1 \<and>
   reported Error (exportChartsAsImages True 2 [(1, Rasterized 17 ''b''), (0, Rasterized 18 ''a'')] blank_ui) = 0 \<and>
   toasts (exportChartsAsImages False 2 [] blank_ui) =
     [(''Chart export library not loaded. Please refresh the page.'', Error)]"
  using C2_chart_export [of 2 "[(1, Rasterized 17 ''b''), (0, Rasterized 18 ''a'')]" blank_ui]
  by (simp add: export_eval)

text \<open>Three canvases; the first is rejected, then the second is rendered, then the third
  is rejected. The second is downloaded although a surface failed before, and there are
  two error toasts, not one.\<close>

theorem C2_no_abort_counterexample:
  "downloads (exportChartsAsImages True 3 [(0, Rejected), (1, Rasterized 17 ''b''), (2, Rejected)] blank_ui) =
     [(''chart_2_17.png'', ''b'')] \<and>
   reported Error (exportChartsAsImages True 3 [(0, Rejected), (1, Rasterized 17 ''b''), (2, Rejected)] blank_ui) = 2 \<and>
   reported Success (exportChartsAsImages True 3 [(0, Rejected), (1, Rasterized 17 ''b''), (2, Rejected)] blank_ui) = 0"
  by (simp add: export_eval)

subsection \<open>The CSV export\<close>







































end
